theory Spec2Isabelle
  imports
    Complex_Main
    "HOL-Library.Multiset"
    "HOL-Library.Sublist"
    "HOL-Library.Char_ord"
    "HOL-Library.List_Lexorder"
    "HOL-Library.Product_Lexorder"
begin

section \<open>The decomposition engine of kollabi (\<^verbatim>\<open>src/kollabi/explainer.py\<close>)\<close>

text \<open>
  The class \<^verbatim>\<open>CollabExplainer\<close> is embedded function by function. Feature names are
  Python strings, compared as Python compares them (lexicographically, character by
  character); a tuple or list of features is a list; a tuple of tuples is a list of
  lists, compared lexicographically as Python compares tuples.
\<close>

type_synonym feature = string

subsection \<open>Canonical order of a combination: \<^verbatim>\<open>__sort_comb\<close>\<close>

text \<open>
  \<^verbatim>\<open>
  comb_s = tuple(tuple(sorted(c)) for c in comb)
  if not inner_only:
      comb_s = tuple(sorted(comb_s, key=lambda x: (len(x), x)))
      comb_s = tuple(tuple(gr) for gr in comb_s)
  return comb_s
  \<close>
  Python's \<^verbatim>\<open>sorted\<close> is stable, as \<^const>\<open>sort_key\<close> is.
\<close>

definition sort_comb :: "feature list list \<Rightarrow> bool \<Rightarrow> feature list list" where
  "sort_comb comb inner_only =
     (let comb_s = map sort comb
      in if \<not> inner_only then sort_key (\<lambda>x. (length x, x)) comb_s else comb_s)"

subsection \<open>Interaction terms: \<^verbatim>\<open>__get_terms\<close> and \<^verbatim>\<open>__get_excluded_terms\<close>\<close>

text \<open>
  \<^verbatim>\<open>itertools.combinations(fs, d)\<close>: the subsequences of \<open>fs\<close> of length \<open>d\<close>, in the
  lexicographic order of the positions they take.
\<close>

fun combinations :: "'a list \<Rightarrow> nat \<Rightarrow> 'a list list" where
  "combinations xs 0 = [[]]"
| "combinations [] (Suc d) = []"
| "combinations (x # xs) (Suc d) =
     map ((#) x) (combinations xs d) @ combinations xs (Suc d)"

text \<open>
  A list of terms handed to the learner mixes interaction terms (tuples of features)
  and main effects (bare feature names): \<^verbatim>\<open>self.__get_terms(C, order) + C\<close>.
\<close>

datatype gterm = Interaction "feature list" | MainEffect feature

text \<open>
  \<^verbatim>\<open>
  terms = sum([list(itertools.combinations(fs, d)) for d in range(2, order+1)], [])
  terms = [term for term in terms if term not in exclude]
  \<close>
  A term is a tuple, so it is equal to no bare feature name in \<open>exclude\<close>.
\<close>

definition get_terms :: "feature list \<Rightarrow> int \<Rightarrow> gterm list \<Rightarrow> feature list list" where
  "get_terms fs order' exclude =
     filter (\<lambda>term. Interaction term \<notin> set exclude)
       (concat (map (\<lambda>d. combinations fs (nat d)) [2..order']))"

text \<open>
  \<^verbatim>\<open>
  C_l = list(C)
  termss = [CollabExplainer.__get_terms(elem + C_l, order) for elem in comb]
  allowed_terms = list(itertools.chain(*termss))
  fs = [f for gr in comb for f in gr] + C_l
  all_terms = CollabExplainer.__get_terms(fs, order)
  return [term for term in all_terms if term not in allowed_terms]
  \<close>
\<close>

definition get_excluded_terms ::
  "feature list list \<Rightarrow> int \<Rightarrow> feature list \<Rightarrow> feature list list" where
  "get_excluded_terms comb order' C =
     (let C_l = C;
          termss = map (\<lambda>elem. get_terms (elem @ C_l) order' []) comb;
          allowed_terms = concat termss;
          fs = concat comb @ C_l;
          all_terms = get_terms fs order' []
      in filter (\<lambda>term. term \<notin> set allowed_terms) all_terms)"


subsection \<open>Numbers\<close>

text \<open>
  The engine computes in numpy's \<^verbatim>\<open>float64\<close>. A finite float is modelled as the real
  number it stands for (rounding and overflow are not modelled); beside the finite values
  there are the three special values that numpy's division produces instead of raising:
  \<^verbatim>\<open>inf\<close>, \<^verbatim>\<open>-inf\<close> and \<^verbatim>\<open>nan\<close>. Zero is the positive zero (every divisor of the
  engine is a variance).
\<close>

datatype npfloat = Fin real | PInf | NInf | NaN

fun fneg :: "npfloat \<Rightarrow> npfloat" where
  "fneg (Fin a) = Fin (- a)"
| "fneg PInf = NInf"
| "fneg NInf = PInf"
| "fneg NaN = NaN"

fun fadd :: "npfloat \<Rightarrow> npfloat \<Rightarrow> npfloat" where
  "fadd (Fin a) (Fin b) = Fin (a + b)"
| "fadd (Fin a) PInf = PInf"
| "fadd (Fin a) NInf = NInf"
| "fadd PInf (Fin b) = PInf"
| "fadd NInf (Fin b) = NInf"
| "fadd PInf PInf = PInf"
| "fadd NInf NInf = NInf"
| "fadd PInf NInf = NaN"
| "fadd NInf PInf = NaN"
| "fadd NaN b = NaN"
| "fadd a NaN = NaN"

definition fsub :: "npfloat \<Rightarrow> npfloat \<Rightarrow> npfloat" where
  "fsub a b = fadd a (fneg b)"

definition signed_inf :: "real \<Rightarrow> npfloat" where
  "signed_inf a = (if a = 0 then NaN else if 0 < a then PInf else NInf)"

fun fmul :: "npfloat \<Rightarrow> npfloat \<Rightarrow> npfloat" where
  "fmul (Fin a) (Fin b) = Fin (a * b)"
| "fmul (Fin a) PInf = signed_inf a"
| "fmul (Fin a) NInf = signed_inf (- a)"
| "fmul PInf (Fin b) = signed_inf b"
| "fmul NInf (Fin b) = signed_inf (- b)"
| "fmul PInf PInf = PInf"
| "fmul NInf NInf = PInf"
| "fmul PInf NInf = NInf"
| "fmul NInf PInf = NInf"
| "fmul NaN b = NaN"
| "fmul a NaN = NaN"

fun fdiv :: "npfloat \<Rightarrow> npfloat \<Rightarrow> npfloat" where
  "fdiv (Fin a) (Fin b) = (if b = 0 then signed_inf a else Fin (a / b))"
| "fdiv (Fin a) PInf = Fin 0"
| "fdiv (Fin a) NInf = Fin 0"
| "fdiv PInf (Fin b) = (if 0 \<le> b then PInf else NInf)"
| "fdiv NInf (Fin b) = (if 0 \<le> b then NInf else PInf)"
| "fdiv PInf PInf = NaN"
| "fdiv NInf NInf = NaN"
| "fdiv PInf NInf = NaN"
| "fdiv NInf PInf = NaN"
| "fdiv NaN b = NaN"
| "fdiv a NaN = NaN"

subsection \<open>Errors\<close>

text \<open>
  Every \<^verbatim>\<open>assert\<close> of \<^verbatim>\<open>__assert_comb_valid\<close> raises \<^verbatim>\<open>AssertionError\<close>; the
  argument says which one: \<^verbatim>\<open>'Please provide exactly two sets of features'\<close>,
  \<^verbatim>\<open>'The elements of the combination must be strings or lists'\<close>,
  \<^verbatim>\<open>'Feature not in the dataset'\<close>, \<^verbatim>\<open>'the two sets of features must be disjoint'\<close>,
  \<^verbatim>\<open>'the conditioning set must be disjoint from the two sets'\<close>.
  \<open>KeyError\<close> is what pandas raises for a column that is not there, \<open>ValueError\<close> what
  numpy and scikit-learn raise for series of different lengths; \<open>FitError\<close> and
  \<open>PredictError\<close> stand for any exception of the learner.
\<close>

datatype assertion =
  ExactlyTwoSets | StringsOrLists | FeatureInDataset | SetsDisjoint | ConditioningDisjoint

datatype error =
  AssertionError assertion | KeyError feature | ValueError | FitError | PredictError

definition bind_r :: "error + 'a \<Rightarrow> ('a \<Rightarrow> error + 'b) \<Rightarrow> error + 'b" where
  "bind_r r f = (case r of Inl e \<Rightarrow> Inl e | Inr x \<Rightarrow> f x)"

subsection \<open>Series, tables and the library functions on them\<close>

text \<open>
  A series is the list of its values, a table (a pandas \<^verbatim>\<open>DataFrame\<close>) the list of its
  named columns. \<^verbatim>\<open>X.loc[:, cols]\<close> and \<^verbatim>\<open>X[cols]\<close> select the named columns in the
  order asked for and raise \<^verbatim>\<open>KeyError\<close> at the first name that is no column.
\<close>

type_synonym series = "real list"
type_synonym table = "(feature \<times> series) list"

fun loc_cols :: "table \<Rightarrow> feature list \<Rightarrow> error + table" where
  "loc_cols X [] = Inr []"
| "loc_cols X (c # cs) =
     (case map_of X c of
        None \<Rightarrow> Inl (KeyError c)
      | Some col \<Rightarrow> bind_r (loc_cols X cs) (\<lambda>rest. Inr ((c, col) # rest)))"

text \<open>Elementwise \<^verbatim>\<open>a - b\<close> and \<^verbatim>\<open>a + b\<close> of two series.\<close>

definition series_sub :: "series \<Rightarrow> series \<Rightarrow> error + series" where
  "series_sub a b = (if length a \<noteq> length b then Inl ValueError else Inr (map2 (-) a b))"

definition series_add :: "series \<Rightarrow> series \<Rightarrow> error + series" where
  "series_add a b = (if length a \<noteq> length b then Inl ValueError else Inr (map2 (+) a b))"

definition mean :: "series \<Rightarrow> real" where
  "mean xs = sum_list xs / real (length xs)"

text \<open>\<^verbatim>\<open>np.var\<close>: the mean of the squared deviations; \<^verbatim>\<open>nan\<close> for no value at all.\<close>

definition np_var :: "series \<Rightarrow> npfloat" where
  "np_var xs =
     (if xs = [] then NaN
      else Fin (sum_list (map (\<lambda>x. (x - mean xs)\<^sup>2) xs) / real (length xs)))"

text \<open>
  \<^verbatim>\<open>np.cov(a, b)[0, 1]\<close>: the sample covariance (divisor \<open>n - 1\<close>), \<^verbatim>\<open>nan\<close> for fewer
  than two observations.
\<close>

definition np_cov01 :: "series \<Rightarrow> series \<Rightarrow> error + npfloat" where
  "np_cov01 a b =
     (if length a \<noteq> length b then Inl ValueError
      else if length a \<le> 1 then Inr NaN
      else Inr (Fin (sum_list (map2 (\<lambda>x y. (x - mean a) * (y - mean b)) a b)
                      / (real (length a) - 1))))"

text \<open>
  \<^verbatim>\<open>sklearn.metrics.r2_score(y_true, y_pred)\<close>: one minus the residual sum of squares
  over the total sum of squares; for a constant \<open>y_true\<close> it is 1 for a perfect
  prediction and 0 otherwise; \<^verbatim>\<open>nan\<close> for a single sample; \<^verbatim>\<open>ValueError\<close> for
  series of different lengths and for no sample at all.
\<close>

definition r2_score :: "series \<Rightarrow> series \<Rightarrow> error + npfloat" where
  "r2_score y_true y_pred =
     (if length y_true \<noteq> length y_pred then Inl ValueError
      else if y_true = [] then Inl ValueError
      else if length y_true < 2 then Inr NaN
      else let numerator = sum_list (map2 (\<lambda>y p. (y - p)\<^sup>2) y_true y_pred);
               denominator = sum_list (map (\<lambda>y. (y - mean y_true)\<^sup>2) y_true)
           in if denominator \<noteq> 0 then Inr (Fin (1 - numerator / denominator))
              else if numerator \<noteq> 0 then Inr (Fin 0)
              else Inr (Fin 1))"

subsection \<open>The learner\<close>

text \<open>
  The learner class is handed to the engine (\<^verbatim>\<open>self.Learner\<close>) and is not part of it:
  it is a parameter of the model. \<open>fit\<close> stands for constructing a learner and fitting
  it, \<^verbatim>\<open>m = self.Learner(exclude=e); m.fit(X, y)\<close>, and returns the fitted predictor;
  \<open>None\<close> stands for an exception. The constructor is called in three ways:
  \<^verbatim>\<open>Learner()\<close>, \<^verbatim>\<open>Learner(exclude=None)\<close> and \<^verbatim>\<open>Learner(exclude=terms)\<close>.
\<close>

datatype ctor_args = NoArgs | Exclude "feature list list option"

record 'm learner =
  fit :: "ctor_args \<Rightarrow> table \<Rightarrow> series \<Rightarrow> 'm option"
  predict :: "'m \<Rightarrow> table \<Rightarrow> series option"
  predict_components :: "'m \<Rightarrow> table \<Rightarrow> gterm list \<Rightarrow> series option"

subsection \<open>The engine\<close>

text \<open>
  \<^verbatim>\<open>RETURN_NAMES = ['var_g1', 'var_g2', 'var_gC', 'additive_collab_explv',
  'additive_collab_cov', 'interactive_collab']\<close>: a decomposition is a \<^verbatim>\<open>pd.Series\<close>
  with these six labels.
\<close>

record decomp =
  var_g1 :: npfloat
  var_g2 :: npfloat
  var_gC :: npfloat
  additive_collab_explv :: npfloat
  additive_collab_cov :: npfloat
  interactive_collab :: npfloat

type_synonym model_key = "int \<times> feature list list \<times> feature list"
type_synonym decomp_key = "feature list list \<times> feature list"

text \<open>
  The fields of \<^verbatim>\<open>self\<close> that the methods below read or write. \<open>fits\<close> is not a
  field of the source: it logs the calls of \<^verbatim>\<open>model.fit\<close>, newest first, each with the
  key of the model cache it is made for (\<open>None\<close> for the two auxiliary regressions of
  \<^verbatim>\<open>compute\<close>, which are not cached) and whether the call returned.
\<close>

record 'm engine =
  fs :: "feature list"
  test_size :: real
  X_train :: table
  X_test :: table
  y_train :: series
  y_test :: series
  verbose :: bool
  decomps :: "decomp_key \<rightharpoonup> decomp"
  models :: "model_key \<rightharpoonup> 'm"
  fits :: "(model_key option \<times> bool) list"

text \<open>
  A method is a function from the state before to its result, an error or a value, and
  the state after: what a method has written before it raises stays written.
\<close>

type_synonym ('m, 'a) action = "'m engine \<Rightarrow> (error + 'a) \<times> 'm engine"

definition bind_e :: "('m, 'a) action \<Rightarrow> ('a \<Rightarrow> ('m, 'b) action) \<Rightarrow> ('m, 'b) action" where
  "bind_e m f s = (case m s of (Inl e, s') \<Rightarrow> (Inl e, s') | (Inr x, s') \<Rightarrow> f x s')"

definition return_e :: "'a \<Rightarrow> ('m, 'a) action" where
  "return_e x s = (Inr x, s)"

text \<open>An expression that reads fields of \<^verbatim>\<open>self\<close>, writes none and may raise.\<close>

definition reading :: "('m engine \<Rightarrow> error + 'a) \<Rightarrow> ('m, 'a) action" where
  "reading f s = (f s, s)"

definition call_predict :: "'m learner \<Rightarrow> 'm \<Rightarrow> table \<Rightarrow> error + series" where
  "call_predict L model X = (case predict L model X of None \<Rightarrow> Inl PredictError | Some p \<Rightarrow> Inr p)"

definition call_predict_components ::
  "'m learner \<Rightarrow> 'm \<Rightarrow> table \<Rightarrow> gterm list \<Rightarrow> error + series" where
  "call_predict_components L model X terms =
     (case predict_components L model X terms of None \<Rightarrow> Inl PredictError | Some p \<Rightarrow> Inr p)"

text \<open>
  \<^verbatim>\<open>model.fit(X, y)\<close> with its entry in the log; the fitted model is stored by the
  caller.
\<close>

definition call_fit ::
  "'m learner \<Rightarrow> model_key option \<Rightarrow> ctor_args \<Rightarrow> table \<Rightarrow> series \<Rightarrow> ('m, 'm) action" where
  "call_fit L key args X y s =
     (case fit L args X y of
        None \<Rightarrow> (Inl FitError, s\<lparr>fits := (key, False) # fits s\<rparr>)
      | Some model \<Rightarrow> (Inr model, s\<lparr>fits := (key, True) # fits s\<rparr>))"


subsection \<open>Validation: \<^verbatim>\<open>__assert_comb_valid\<close>\<close>

text \<open>
  An element of a combination is a string (one feature name), a tuple or a list of
  feature names, or any other Python object.
\<close>

datatype group_arg = Str feature | Tup "feature list" | Lst "feature list" | Other

text \<open>
  The loop over the elements:
  \<^verbatim>\<open>
  for i in range(len(comb_)):
      if isinstance(comb_[i], str):
          comb_[i] = [comb_[i]]
      elif isinstance(comb_[i], tuple):
          comb_[i] = list(comb_[i])
      else:
          assert isinstance(comb_[i], list), 'The elements of the combination must be strings or lists'
      assert all([f in self.fs for f in comb_[i]]), 'Feature not in the dataset'
  \<close>
\<close>

fun as_lists :: "feature list \<Rightarrow> group_arg list \<Rightarrow> error + feature list list" where
  "as_lists fs' [] = Inr []"
| "as_lists fs' (g # gs) =
     bind_r (case g of
               Str f \<Rightarrow> Inr [f]
             | Tup t \<Rightarrow> Inr t
             | Lst l \<Rightarrow> Inr l
             | Other \<Rightarrow> Inl (AssertionError StringsOrLists))
       (\<lambda>l. if \<not> list_all (\<lambda>f. f \<in> set fs') l then Inl (AssertionError FeatureInDataset)
            else bind_r (as_lists fs' gs) (\<lambda>ls. Inr (l # ls)))"

text \<open>
  \<^verbatim>\<open>
  assert len(comb) == 2, 'Please provide exactly two sets of features'
  comb_ = list(comb)
  (the loop)
  assert len(set(comb_[0]).intersection(set(comb_[1]))) == 0, 'the two sets of features must be disjoint'
  assert len(set(comb_[0]).union(set(comb_[1])).intersection(set(C))) == 0, 'the conditioning set must be disjoint from the two sets'
  return comb_
  \<close>
  The first argument is \<^verbatim>\<open>self.fs\<close>; \<open>cl\<close> is \<^verbatim>\<open>comb_\<close>.
\<close>

definition assert_comb_valid ::
  "feature list \<Rightarrow> group_arg list \<Rightarrow> feature list \<Rightarrow> error + feature list list" where
  "assert_comb_valid fs' comb C =
     (if length comb \<noteq> 2 then Inl (AssertionError ExactlyTwoSets)
      else bind_r (as_lists fs' comb)
        (\<lambda>cl.
           if set (cl ! 0) \<inter> set (cl ! 1) \<noteq> {} then Inl (AssertionError SetsDisjoint)
           else if (set (cl ! 0) \<union> set (cl ! 1)) \<inter> set C \<noteq> {}
             then Inl (AssertionError ConditioningDisjoint)
           else Inr cl))"

subsection \<open>Relabelling: \<^verbatim>\<open>__adjust_order\<close>\<close>

text \<open>
  \<^verbatim>\<open>
  if CollabExplainer.__sort_comb(comb, inner_only=True) == CollabExplainer.__sort_comb(comb, inner_only=False):
      return res
  else:
      res_s = res.rename({RETURN_NAMES[0]: RETURN_NAMES[1], RETURN_NAMES[1]: RETURN_NAMES[0]}, inplace=False).copy()
      res_s = res_s.loc[res.index]
      return res_s
  \<close>
  The renamed copy, read in the order of the original labels, has the values of
  \<^verbatim>\<open>var_g1\<close> and \<^verbatim>\<open>var_g2\<close> exchanged.
\<close>

definition adjust_order :: "feature list list \<Rightarrow> decomp \<Rightarrow> decomp" where
  "adjust_order comb res =
     (if sort_comb comb True = sort_comb comb False then res
      else res\<lparr>var_g1 := var_g2 res, var_g2 := var_g1 res\<rparr>)"

subsection \<open>The model cache: \<^verbatim>\<open>__get_model\<close>\<close>

text \<open>
  \<^verbatim>\<open>
  comb_s = CollabExplainer.__sort_comb(comb)
  C_s = sorted(list(C))
  fs = [f for gr in comb for f in gr]
  fs_full = fs + C
  key = (order, comb_s, tuple(C_s))
  if key in self.models.keys():
      return self.models[key]
  else:
      if len(C_s) > 0:
          model = self.__get_model([C_s], order, C=[])
          y_pred = model.predict(self.X_train.loc[:, C_s])
          y_res = self.y_train - y_pred
      else:
          y_res = self.y_train
      if len(comb_s) > 1:
          excluded_terms = CollabExplainer.__get_excluded_terms(comb, order, C=C)
          model = self.Learner(exclude=excluded_terms)
      else:
          model = self.Learner(exclude=None)
      model.fit(self.X_train.loc[:, fs_full], y_res)
      self.models[key] = model
      return model
  \<close>
\<close>

text \<open>
  The last three lines of the method, for the key, the constructor arguments, the
  columns \<^verbatim>\<open>fs_full\<close> and the target \<^verbatim>\<open>y_res\<close> computed before them:
  \<^verbatim>\<open>
  model.fit(self.X_train.loc[:, fs_full], y_res)
  self.models[key] = model
  return model
  \<close>
\<close>

definition fit_and_store ::
  "'m learner \<Rightarrow> model_key \<Rightarrow> ctor_args \<Rightarrow> feature list \<Rightarrow> series \<Rightarrow> ('m, 'm) action" where
  "fit_and_store L key args fs_full y_res =
     bind_e (reading (\<lambda>s. loc_cols (X_train s) fs_full)) (\<lambda>X.
     bind_e (call_fit L (Some key) args X y_res) (\<lambda>model s.
       (Inr model, s\<lparr>models := (models s)(key \<mapsto> model)\<rparr>)))"

function get_model ::
  "'m learner \<Rightarrow> feature list list \<Rightarrow> int \<Rightarrow> feature list \<Rightarrow> ('m, 'm) action" where
  "get_model L comb order' C s =
     (let comb_s = sort_comb comb False;
          C_s = sort C;
          fs' = concat comb;
          fs_full = fs' @ C;
          key = (order', comb_s, C_s)
      in case models s key of
           Some model \<Rightarrow> (Inr model, s)
         | None \<Rightarrow>
             (case (if length C_s > 0
                    then (case get_model L [C_s] order' [] s of
                            (Inl e, s') \<Rightarrow> (Inl e, s')
                          | (Inr model, s') \<Rightarrow>
                              reading (\<lambda>s. bind_r (loc_cols (X_train s) C_s)
                                (\<lambda>X. bind_r (call_predict L model X)
                                (\<lambda>y_pred. series_sub (y_train s) y_pred))) s')
                    else (Inr (y_train s), s)) of
                (Inl e, s') \<Rightarrow> (Inl e, s')
              | (Inr y_res, s') \<Rightarrow>
                  fit_and_store L key
                    (if length comb_s > 1
                     then Exclude (Some (get_excluded_terms comb order' C))
                     else Exclude None)
                    fs_full y_res s'))"
  by pat_completeness auto
termination
  by (relation "measure (\<lambda>(L, comb, order', C, s). length C)") auto


subsection \<open>The decomposition: \<^verbatim>\<open>compute\<close>\<close>

text \<open>
  The arithmetic at the end of \<^verbatim>\<open>compute\<close> (lines 296 to 300 and 314 to 325), on the
  covariance \<^verbatim>\<open>np.cov(g1_res, g2_res)[0, 1]\<close> and the quantities computed before:
  \<^verbatim>\<open>
  cov_g1_g2 = cov_g1_g2 / var_y_res
  additive_collab = (var_f1 + var_f2 - var_GAM)*-1
  additive_collab_wo_cov = additive_collab + 2*cov_g1_g2
  interactive_collab = var_total - var_GAM
  # rescale to proportion of variance of Y
  if True:
      var_y = np.var(self.y_test)
      factor = var_y_res / var_y
      var_f1 *= factor
      var_f2 *= factor
      additive_collab *= factor
      cov_g1_g2 *= factor
      interactive_collab *= factor
      var_fC *= factor
  return pd.Series([var_f1, var_f2, var_fC, additive_collab_wo_cov, -2*cov_g1_g2, interactive_collab], index=return_names)
  \<close>
\<close>

definition collab_series ::
  "npfloat \<Rightarrow> npfloat \<Rightarrow> npfloat \<Rightarrow> npfloat \<Rightarrow> npfloat \<Rightarrow> npfloat \<Rightarrow> npfloat \<Rightarrow> npfloat \<Rightarrow> decomp" where
  "collab_series cov var_y_res var_f1 var_f2 var_GAM var_total var_fC var_y =
     (let cov_g1_g2 = fdiv cov var_y_res;
          additive_collab = fmul (fsub (fadd var_f1 var_f2) var_GAM) (Fin (- 1));
          additive_collab_wo_cov = fadd additive_collab (fmul (Fin 2) cov_g1_g2);
          interactive_collab = fsub var_total var_GAM;
          factor = fdiv var_y_res var_y;
          var_f1 = fmul var_f1 factor;
          var_f2 = fmul var_f2 factor;
          additive_collab = fmul additive_collab factor;
          cov_g1_g2 = fmul cov_g1_g2 factor;
          interactive_collab = fmul interactive_collab factor;
          var_fC = fmul var_fC factor
      in \<lparr>var_g1 = var_f1, var_g2 = var_f2, var_gC = var_fC,
          additive_collab_explv = additive_collab_wo_cov,
          additive_collab_cov = fmul (Fin (- 2)) cov_g1_g2,
          interactive_collab = interactive_collab\<rparr>)"

text \<open>\<^verbatim>\<open>r2_score(y_test_res, model.predict(self.X_test[cols]))\<close>\<close>

definition score_on_test ::
  "'m learner \<Rightarrow> 'm \<Rightarrow> feature list \<Rightarrow> series \<Rightarrow> ('m, npfloat) action" where
  "score_on_test L model cols y_test_res =
     reading (\<lambda>s. bind_r (loc_cols (X_test s) cols)
       (\<lambda>X. bind_r (call_predict L model X) (r2_score y_test_res)))"

text \<open>
  \<^verbatim>\<open>
  model_g1 = self.Learner()
  model_g1.fit(self.X_train[C], g1_train)
  g1_pred = model_g1.predict(self.X_test[C])
  g1_res = g1_test - g1_pred
  \<close>
  and the same for the second group; the result is \<open>(g_pred, g_res)\<close>.
\<close>

definition orthogonalize ::
  "'m learner \<Rightarrow> feature list \<Rightarrow> series \<Rightarrow> series \<Rightarrow> ('m, series \<times> series) action" where
  "orthogonalize L C g_train g_test =
     bind_e (reading (\<lambda>s. loc_cols (X_train s) C)) (\<lambda>X.
     bind_e (call_fit L None NoArgs X g_train) (\<lambda>model_g.
     reading (\<lambda>s. bind_r (loc_cols (X_test s) C) (\<lambda>X.
                   bind_r (call_predict L model_g X) (\<lambda>g_pred.
                   bind_r (series_sub g_test g_pred) (\<lambda>g_res. Inr (g_pred, g_res)))))))"

text \<open>
  The baseline (lines 224 to 230); the result is \<^verbatim>\<open>y_test_res\<close> and
  \<^verbatim>\<open>np.var(b_pred)\<close>, which is \<^verbatim>\<open>np.var(0) = 0.0\<close> without a conditioning set:
  \<^verbatim>\<open>
  if len(C) > 0:
      b = self.__get_model([C], order, C=[])
      b_pred = b.predict(self.X_test.loc[:, C])
  else:
      b_pred = 0
  y_test_res = self.y_test - b_pred
  \<close>
\<close>

definition baseline ::
  "'m learner \<Rightarrow> int \<Rightarrow> feature list \<Rightarrow> ('m, series \<times> npfloat) action" where
  "baseline L order' C =
     (if length C > 0
      then bind_e (get_model L [C] order' []) (\<lambda>b.
           reading (\<lambda>s. bind_r (loc_cols (X_test s) C) (\<lambda>X.
                         bind_r (call_predict L b X) (\<lambda>b_pred.
                         bind_r (series_sub (y_test s) b_pred) (\<lambda>y_test_res.
                         Inr (y_test_res, np_var b_pred))))))
      else reading (\<lambda>s. Inr (y_test s, Fin 0)))"

text \<open>
  \<^verbatim>\<open>compute(self, comb, order=2, C=[])\<close>, line by line. The validation is called
  without the conditioning set, \<^verbatim>\<open>comb = self.__assert_comb_valid(comb)\<close>, so its
  parameter \<^verbatim>\<open>C\<close> has its default, the empty list. \<^verbatim>\<open>var_comp\<close> is computed for the
  debug log only; in verbose mode the method prints, among others,
  \<^verbatim>\<open>r2_score(self.y_train, model_full.predict(self.X_train))\<close>.
\<close>

definition compute ::
  "'m learner \<Rightarrow> group_arg list \<Rightarrow> int \<Rightarrow> feature list \<Rightarrow> ('m, decomp) action" where
  "compute L comb0 order' C =
     bind_e (reading (\<lambda>s. assert_comb_valid (fs s) comb0 [])) (\<lambda>comb.
     let fs' = concat comb;
         fs_full = fs' @ C;
         fs_0 = comb ! 0 @ C;
         fs_1 = comb ! 1 @ C
     in
     bind_e (baseline L order' C) (\<lambda>(y_test_res, var_b_pred).
     let var_y_res = np_var y_test_res;
         var_fC = fdiv var_b_pred var_y_res
     in
     bind_e (get_model L [fs'] order' C) (\<lambda>model_full.
     bind_e (score_on_test L model_full fs_full y_test_res) (\<lambda>var_total.
     bind_e (get_model L comb order' C) (\<lambda>model_order1.
     bind_e (score_on_test L model_order1 fs_full y_test_res) (\<lambda>var_GAM.
     bind_e (get_model L [comb ! 0] order' C) (\<lambda>f1.
     bind_e (score_on_test L f1 fs_0 y_test_res) (\<lambda>var_f1.
     bind_e (get_model L [comb ! 1] order' C) (\<lambda>f2.
     bind_e (score_on_test L f2 fs_1 y_test_res) (\<lambda>var_f2.
     let terms_C = map Interaction (get_terms C order' []) @ map MainEffect C;
         terms_g1 = map Interaction (get_terms fs_0 order' terms_C) @ map MainEffect (comb ! 0);
         terms_g2 = map Interaction (get_terms fs_1 order' terms_C) @ map MainEffect (comb ! 1)
     in
     bind_e (reading (\<lambda>s. call_predict_components L model_order1 (X_test s) terms_g1)) (\<lambda>g1_test.
     bind_e (reading (\<lambda>s. call_predict_components L model_order1 (X_test s) terms_g2)) (\<lambda>g2_test.
     bind_e (if length C > 0
             then bind_e (reading (\<lambda>s. call_predict_components L model_order1 (X_train s) terms_g1)) (\<lambda>g1_train.
                  bind_e (reading (\<lambda>s. call_predict_components L model_order1 (X_train s) terms_g2)) (\<lambda>g2_train.
                  bind_e (orthogonalize L C g1_train g1_test) (\<lambda>(g1_pred, g1_res).
                  bind_e (orthogonalize L C g2_train g2_test) (\<lambda>(g2_pred, g2_res).
                  bind_e (reading (\<lambda>s. bind_r (call_predict_components L model_order1 (X_test s) terms_C) (\<lambda>gc_test.
                                        bind_r (series_add g1_pred g2_pred) (\<lambda>p12.
                                        bind_r (series_add p12 gc_test) (\<lambda>p.
                                        bind_r (series_add g1_test g2_test) (\<lambda>t12.
                                        bind_r (series_add t12 gc_test) (\<lambda>t.
                                        Inr (fdiv (np_var p) (np_var t))))))))) (\<lambda>var_comp.
                  return_e (g1_res, g2_res))))))
             else return_e (g1_test, g2_test)) (\<lambda>(g1_res, g2_res).
     bind_e (reading (\<lambda>s. np_cov01 g1_res g2_res)) (\<lambda>cov.
     bind_e (reading (\<lambda>s. if verbose s
                           then bind_r (call_predict L model_full (X_train s)) (\<lambda>p.
                                bind_r (r2_score (y_train s) p) (\<lambda>r2_train. Inr ()))
                           else Inr ())) (\<lambda>printed.
     reading (\<lambda>s. Inr (collab_series cov var_y_res var_f1 var_f2 var_GAM var_total var_fC
                          (np_var (y_test s)))))))))))))))))))"

subsection \<open>The decomposition cache: \<^verbatim>\<open>get\<close>\<close>

text \<open>
  \<^verbatim>\<open>
  def get(self, comb, C=[]):
      comb = self.__assert_comb_valid(comb)
      comb_s = CollabExplainer.__sort_comb(comb)
      key = (comb_s, tuple(sorted(C)))
      if key in self.decomps.keys():
          res = self.decomps[key]
          return self.__adjust_order(comb, res)
      else:
          res = self.compute(list(comb_s), C=C)
          self.decomps[key] = res
          return res
  \<close>
  Here too the validation is called without \<^verbatim>\<open>C\<close>. \<^verbatim>\<open>list(comb_s)\<close> is a list of
  tuples.
\<close>

definition get :: "'m learner \<Rightarrow> group_arg list \<Rightarrow> feature list \<Rightarrow> ('m, decomp) action" where
  "get L comb0 C =
     bind_e (reading (\<lambda>s. assert_comb_valid (fs s) comb0 [])) (\<lambda>comb.
     let comb_s = sort_comb comb False;
         key = (comb_s, sort C)
     in (\<lambda>s. case decomps s key of
               Some res \<Rightarrow> (Inr (adjust_order comb res), s)
             | None \<Rightarrow>
                 bind_e (compute L (map Tup comb_s) 2 C)
                   (\<lambda>res s. (Inr res, s\<lparr>decomps := (decomps s)(key \<mapsto> res)\<rparr>)) s))"

subsection \<open>Resplitting: \<^verbatim>\<open>new_split\<close>\<close>

text \<open>
  \<^verbatim>\<open>
  if test_size is None:
      test_size = self.test_size
  else:
      self.test_size = test_size
  self.X_train, self.X_test, self.y_train, self.y_test = train_test_split(self.df[self.fs], self.df[self.target],
                                                                          test_size=test_size)
  self.decomps.clear()
  \<close>
  \<^verbatim>\<open>train_test_split\<close> draws the partition at random: it is a parameter, the function
  that gives, for a test size, the partition drawn from \<^verbatim>\<open>self.df\<close> (\<open>None\<close> when
  scikit-learn rejects the test size with \<^verbatim>\<open>ValueError\<close>).
\<close>

definition new_split ::
  "(real \<Rightarrow> (table \<times> table \<times> series \<times> series) option) \<Rightarrow> real option \<Rightarrow> ('m, unit) action" where
  "new_split train_test_split test_size' s =
     (let (t, s) = (case test_size' of
                      None \<Rightarrow> (test_size s, s)
                    | Some t \<Rightarrow> (t, s\<lparr>test_size := t\<rparr>))
      in case train_test_split t of
           None \<Rightarrow> (Inl ValueError, s)
         | Some (Xtr, Xte, ytr, yte) \<Rightarrow>
             (Inr (), s\<lparr>X_train := Xtr, X_test := Xte, y_train := ytr, y_test := yte,
                        decomps := Map.empty\<rparr>))"


subsection \<open>A fresh engine and sequences of queries\<close>

text \<open>
  \<^verbatim>\<open>__init__\<close> stores the features, the test size, the partition that
  \<^verbatim>\<open>train_test_split\<close> drew and the verbosity, and starts with two empty caches:
  \<^verbatim>\<open>self.decomps = {}\<close>, \<^verbatim>\<open>self.models = {}\<close>.
\<close>

definition init ::
  "feature list \<Rightarrow> real \<Rightarrow> table \<times> table \<times> series \<times> series \<Rightarrow> bool \<Rightarrow> 'm engine" where
  "init fs' test_size' split verbose' =
     (case split of (Xtr, Xte, ytr, yte) \<Rightarrow>
        \<lparr>fs = fs', test_size = test_size', X_train = Xtr, X_test = Xte,
         y_train = ytr, y_test = yte, verbose = verbose',
         decomps = Map.empty, models = Map.empty, fits = []\<rparr>)"

text \<open>The public queries of an engine, and a sequence of them run one after the other.\<close>

datatype query =
  Get "group_arg list" "feature list"
| Compute "group_arg list" int "feature list"

fun answer :: "'m learner \<Rightarrow> query \<Rightarrow> ('m, decomp) action" where
  "answer L (Get comb C) = get L comb C"
| "answer L (Compute comb order' C) = compute L comb order' C"

fun run :: "'m learner \<Rightarrow> query list \<Rightarrow> 'm engine \<Rightarrow> 'm engine" where
  "run L [] s = s"
| "run L (q # qs) s = run L qs (snd (answer L q s))"

subsection \<open>Vocabulary of the properties\<close>

text \<open>The groups of a combination are disjoint from one another.\<close>

definition pairwise_disjoint :: "feature list list \<Rightarrow> bool" where
  "pairwise_disjoint comb \<longleftrightarrow>
     (\<forall>i<length comb. \<forall>j<length comb. i \<noteq> j \<longrightarrow> set (comb ! i) \<inter> set (comb ! j) = {})"

text \<open>A term has features of two different groups of the combination.\<close>

definition cross_group :: "feature list list \<Rightarrow> feature list \<Rightarrow> bool" where
  "cross_group comb t \<longleftrightarrow>
     (\<exists>i<length comb. \<exists>j<length comb. i \<noteq> j \<and>
        set t \<inter> set (comb ! i) \<noteq> {} \<and> set t \<inter> set (comb ! j) \<noteq> {})"

text \<open>
  A log of fits (newest first) is memoized when no fit is called for a key of the model
  cache after a fit for that key has returned.
\<close>

fun memoized :: "(model_key option \<times> bool) list \<Rightarrow> bool" where
  "memoized [] = True"
| "memoized ((None, ok) # older) = memoized older"
| "memoized ((Some key, ok) # older) = ((Some key, True) \<notin> set older \<and> memoized older)"

text \<open>Every fit of the log that returned has its model in the cache.\<close>

fun fitted_cached :: "(model_key \<rightharpoonup> 'm) \<Rightarrow> (model_key option \<times> bool) list \<Rightarrow> bool" where
  "fitted_cached ms [] = True"
| "fitted_cached ms ((Some key, True) # older) = (ms key \<noteq> None \<and> fitted_cached ms older)"
| "fitted_cached ms (e # older) = fitted_cached ms older"

definition cache_inv :: "'m engine \<Rightarrow> bool" where
  "cache_inv s \<longleftrightarrow> memoized (fits s) \<and> fitted_cached (models s) (fits s)"

text \<open>
  The state \<open>s\<close> is \<open>s0\<close> but for the model cache and the log of fits.
\<close>

definition model_cache_only :: "'m engine \<Rightarrow> 'm engine \<Rightarrow> bool" where
  "model_cache_only s0 s \<longleftrightarrow> (\<exists>ms fl. s = s0\<lparr>models := ms, fits := fl\<rparr>)"

text \<open>A method keeps an invariant of the state, whether it returns or raises.\<close>

definition keeps :: "('m engine \<Rightarrow> bool) \<Rightarrow> ('m, 'a) action \<Rightarrow> bool" where
  "keeps I m \<longleftrightarrow> (\<forall>s. I s \<longrightarrow> I (snd (m s)))"

subsection \<open>A stub learner and a small dataset\<close>

text \<open>
  A learner for running the engine on examples: its fit remembers the names of the
  columns and the target it was given, its prediction is the sum of the columns of the
  table, and the components of a list of terms are the sum of the columns named as main
  effects.
\<close>

fun row_sums :: "table \<Rightarrow> series" where
  "row_sums [] = []"
| "row_sums [(n, c)] = c"
| "row_sums ((n, c) # cs) = map2 (+) c (row_sums cs)"

definition sum_learner :: "(feature list \<times> series) learner" where
  "sum_learner =
     \<lparr>fit = (\<lambda>args X y. Some (map fst X, y)),
      predict = (\<lambda>model X. Some (row_sums X)),
      predict_components =
        (\<lambda>model X terms. Some (row_sums (filter (\<lambda>(n, c). MainEffect n \<in> set terms) X)))\<rparr>"

text \<open>Three features, two training rows and two evaluation rows.\<close>

definition example_engine :: "(feature list \<times> series) engine" where
  "example_engine =
     init [''a'', ''b'', ''c''] (1 / 2)
       ([(''a'', [0, 1]), (''b'', [1, 1]), (''c'', [0, 2])],
        [(''a'', [1, 2]), (''b'', [2, 1]), (''c'', [0, 1])],
        [0, 3], [1, 4]) False"


text \<open>The decomposition of the first two features, and the engine after it is asked for.\<close>

definition example_decomp :: decomp where
  "example_decomp =
     \<lparr>var_g1 = Fin (1 / 9), var_g2 = Fin (- (11 / 9)), var_gC = Fin 0,
      additive_collab_explv = Fin (5 / 9), additive_collab_cov = Fin (4 / 9),
      interactive_collab = Fin 0\<rparr>"

definition queried_engine :: "(feature list \<times> series) engine" where
  "queried_engine = snd (get sum_learner [Lst [''a''], Lst [''b'']] [] example_engine)"

section \<open>Canonical order\<close>

lemma map_sort_cong_mset:
  "list_all2 (\<lambda>g h. mset g = mset h) xs ys \<Longrightarrow> map sort xs = map sort (ys :: feature list list)"
proof (induction rule: list_all2_induct)
  case Nil
  then show ?case by simp
next
  case (Cons x xs y ys)
  have "sort x = sort y"
    using Cons.hyps(1) by (intro properties_for_sort) simp_all
  with Cons.IH show ?case by simp
qed

lemma inj_len_key: "inj_on (\<lambda>x::feature list. (length x, x)) A"
  by (rule inj_onI) simp

lemma sort_key_len_mset:
  assumes "mset xs = mset (ys :: feature list list)"
  shows "sort_key (\<lambda>x. (length x, x)) xs = sort_key (\<lambda>x. (length x, x)) ys"
  using assms by (intro sort_key_inj_key_eq inj_len_key) simp_all

lemma sort_comb_perm:
  assumes "mset perm = mset comb" and "list_all2 (\<lambda>g h. mset g = mset h) comb' perm"
  shows "sort_comb comb' False = sort_comb comb False"
proof -
  have inner: "map sort comb' = map sort perm"
    using assms(2) by (rule map_sort_cong_mset)
  have "mset (map sort perm) = mset (map sort comb)"
    using assms(1) by (metis mset_map)
  then have "sort_key (\<lambda>x. (length x, x)) (map sort perm) =
      sort_key (\<lambda>x. (length x, x)) (map sort comb)"
    by (rule sort_key_len_mset)
  with inner show ?thesis
    by (simp add: sort_comb_def Let_def)
qed

lemma sort_comb_swap: "sort_comb [G2, G1] False = sort_comb [G1, G2] False"
  by (rule sort_comb_perm [where perm = "[G2, G1]"]) (simp_all add: list_all2_Cons1)

lemma sort_comb_groups_sorted: "list_all sorted (sort_comb comb inner_only)"
  by (simp add: sort_comb_def Let_def list_all_iff)

lemma sort_comb_outer_sorted: "sorted (map (\<lambda>g. (length g, g)) (sort_comb comb False))"
  by (simp add: sort_comb_def)

lemma mset_sort_comb: "mset (sort_comb comb inner_only) = mset (map sort comb)"
  by (simp add: sort_comb_def Let_def)

text \<open>
  C8. Full canonicalization sorts the features within each group and the groups by
  (cardinality, lexicographic tuple): every group of the result is sorted, the groups are
  in ascending order of the key, and they are the sorted groups of the input. The result
  is the same for any permutation \<open>perm\<close> of the groups of \<open>comb\<close> and any reordering
  \<open>comb'\<close> of the features within each group of \<open>perm\<close>; in particular for the two
  orders of two groups.
\<close>

theorem sort_comb_permutation_invariant:
  assumes "mset perm = mset comb" and "list_all2 (\<lambda>g h. mset g = mset h) comb' perm"
  shows "sort_comb comb' False = sort_comb comb False
       \<and> list_all sorted (sort_comb comb False)
       \<and> sorted (map (\<lambda>g. (length g, g)) (sort_comb comb False))
       \<and> mset (sort_comb comb False) = mset (map sort comb)
       \<and> sort_comb [G2, G1] False = sort_comb [G1, G2] False"
  using sort_comb_perm [OF assms] sort_comb_groups_sorted [of comb False]
    sort_comb_outer_sorted [of comb] mset_sort_comb [of comb False] sort_comb_swap [of G2 G1]
  by simp

theorem sort_comb_permutation_invariant_witness:
  "mset [[''c''], [''b'', ''a'']] = mset [[''b'', ''a''], [''c'']]
   \<and> list_all2 (\<lambda>g h. mset g = mset h) [[''c''], [''a'', ''b'']] [[''c''], [''b'', ''a'']]
   \<and> sort_comb [[''c''], [''a'', ''b'']] False = sort_comb [[''b'', ''a''], [''c'']] False
   \<and> sort_comb [[''b'', ''a''], [''c'']] False = [[''c''], [''a'', ''b'']]"
proof -
  have p: "mset [[''c''], [''b'', ''a'']] = mset [[''b'', ''a''], [''c'']]"
    by simp
  have r: "list_all2 (\<lambda>g h. mset g = mset h) [[''c''], [''a'', ''b'']] [[''c''], [''b'', ''a'']]"
    by simp
  have "sort_comb [[''b'', ''a''], [''c'']] False = [[''c''], [''a'', ''b'']]"
    by (simp add: sort_comb_def)
  with p r sort_comb_permutation_invariant [OF p r] show ?thesis
    by simp
qed

section \<open>Interaction terms\<close>

lemma set_combinations:
  "set (combinations xs d) = {t. subseq t xs \<and> length t = d}"
proof (induction xs d rule: combinations.induct)
  case (1 xs)
  then show ?case by auto
next
  case (2 d)
  then show ?case by auto
next
  case (3 x xs d)
  show ?case
  proof (rule set_eqI)
    fix t
    show "t \<in> set (combinations (x # xs) (Suc d)) \<longleftrightarrow> t \<in> {t. subseq t (x # xs) \<and> length t = Suc d}"
    proof (cases t)
      case Nil
      then show ?thesis using 3 by auto
    next
      case (Cons y ys)
      then show ?thesis using 3
        by (auto dest: subseq_Cons')
    qed
  qed
qed

lemma set_get_terms:
  "set (get_terms fl k []) = {t. subseq t fl \<and> 2 \<le> length t \<and> int (length t) \<le> k}"
proof (rule set_eqI)
  fix t :: "feature list"
  have "(\<exists>d\<in>{2..k}. length t = nat d) \<longleftrightarrow> 2 \<le> length t \<and> int (length t) \<le> k"
  proof
    assume "\<exists>d\<in>{2..k}. length t = nat d"
    then show "2 \<le> length t \<and> int (length t) \<le> k" by auto
  next
    assume "2 \<le> length t \<and> int (length t) \<le> k"
    then have "int (length t) \<in> {2..k}" "length t = nat (int (length t))" by auto
    then show "\<exists>d\<in>{2..k}. length t = nat d" by blast
  qed
  then show "t \<in> set (get_terms fl k []) \<longleftrightarrow>
      t \<in> {t. subseq t fl \<and> 2 \<le> length t \<and> int (length t) \<le> k}"
    by (auto simp: get_terms_def set_combinations)
qed

lemma subseq_set_subset: "subseq t xs \<Longrightarrow> set t \<subseteq> set xs"
  by (metis set_nths_subset subseq_conv_nths)

lemma pairwise_disjointD:
  "pairwise_disjoint comb \<Longrightarrow> i < length comb \<Longrightarrow> j < length comb \<Longrightarrow> i \<noteq> j \<Longrightarrow>
   set (comb ! i) \<inter> set (comb ! j) = {}"
  by (simp add: pairwise_disjoint_def)

lemma in_concat_nth:
  "x \<in> set (concat comb) \<Longrightarrow> \<exists>i<length comb. x \<in> set (comb ! i)"
  by (auto simp: in_set_conv_nth [of _ comb])

lemma filter_concat_others:
  assumes "\<forall>g\<in>set gs. set g \<inter> A = {}"
  shows "filter (\<lambda>x. x \<in> A) (concat gs) = []"
  using assms by (induction gs) (auto simp: filter_empty_conv)

lemma filter_concat_single:
  assumes "i < length gs" and "\<forall>j<length gs. j \<noteq> i \<longrightarrow> set (gs ! j) \<inter> A = {}"
    and "set (gs ! i) \<subseteq> A"
  shows "filter (\<lambda>x. x \<in> A) (concat gs) = gs ! i"
  using assms
proof (induction gs arbitrary: i)
  case Nil
  then show ?case by simp
next
  case (Cons g gs)
  show ?case
  proof (cases i)
    case 0
    have "\<forall>h\<in>set gs. set h \<inter> A = {}"
    proof
      fix h assume "h \<in> set gs"
      then obtain j where "j < length gs" "h = gs ! j"
        by (auto simp: in_set_conv_nth)
      then show "set h \<inter> A = {}"
        using Cons.prems(2) [rule_format, of "Suc j"] 0 by simp
    qed
    then have "filter (\<lambda>x. x \<in> A) (concat gs) = []"
      by (rule filter_concat_others)
    moreover have "filter (\<lambda>x. x \<in> A) g = g"
      using Cons.prems(3) 0 by (auto simp: filter_id_conv)
    ultimately show ?thesis using 0 by simp
  next
    case (Suc i')
    have "set g \<inter> A = {}"
      using Cons.prems(2) [rule_format, of 0] Suc by simp
    then have "filter (\<lambda>x. x \<in> A) g = []"
      by (auto simp: filter_empty_conv)
    moreover have "filter (\<lambda>x. x \<in> A) (concat gs) = gs ! i'"
    proof (rule Cons.IH)
      show "i' < length gs" using Cons.prems(1) Suc by simp
      show "\<forall>j<length gs. j \<noteq> i' \<longrightarrow> set (gs ! j) \<inter> A = {}"
      proof (intro allI impI)
        fix j assume "j < length gs" "j \<noteq> i'"
        then show "set (gs ! j) \<inter> A = {}"
          using Cons.prems(2) [rule_format, of "Suc j"] Suc by simp
      qed
      show "set (gs ! i') \<subseteq> A" using Cons.prems(3) Suc by simp
    qed
    ultimately show ?thesis using Suc by simp
  qed
qed

lemma subseq_within_group:
  assumes pd: "pairwise_disjoint comb" and cd: "\<forall>g\<in>set comb. set g \<inter> set C = {}"
    and i: "i < length comb" and sub: "subseq t (concat comb @ C)"
    and within: "set t \<subseteq> set (comb ! i) \<union> set C"
  shows "subseq t (comb ! i @ C)"
proof -
  let ?A = "set (comb ! i) \<union> set C"
  let ?P = "\<lambda>x. x \<in> ?A"
  have "\<forall>j<length comb. j \<noteq> i \<longrightarrow> set (comb ! j) \<inter> ?A = {}"
  proof (intro allI impI)
    fix j assume j: "j < length comb" "j \<noteq> i"
    have "set (comb ! j) \<inter> set (comb ! i) = {}"
      using pd j(1) i j(2) by (rule pairwise_disjointD)
    moreover have "set (comb ! j) \<inter> set C = {}"
      using cd j(1) by (simp add: nth_mem)
    ultimately show "set (comb ! j) \<inter> ?A = {}" by blast
  qed
  then have "filter ?P (concat comb) = comb ! i"
    using i by (intro filter_concat_single) auto
  moreover have "filter ?P C = C"
    by (simp add: filter_id_conv)
  ultimately have "filter ?P (concat comb @ C) = comb ! i @ C"
    by simp
  moreover have "filter ?P t = t"
    using within by (auto simp: filter_id_conv)
  ultimately show ?thesis
    using subseq_filter [OF sub, of ?P] by simp
qed

lemma allowed_iff_within:
  assumes pd: "pairwise_disjoint comb" and cd: "\<forall>g\<in>set comb. set g \<inter> set C = {}"
    and t: "t \<in> set (get_terms (concat comb @ C) k [])"
  shows "t \<in> set (concat (map (\<lambda>elem. get_terms (elem @ C) k []) comb)) \<longleftrightarrow>
         (\<exists>i<length comb. set t \<subseteq> set (comb ! i) \<union> set C)"
proof
  assume "t \<in> set (concat (map (\<lambda>elem. get_terms (elem @ C) k []) comb))"
  then obtain g where "g \<in> set comb" "subseq t (g @ C)"
    by (auto simp: set_get_terms)
  then show "\<exists>i<length comb. set t \<subseteq> set (comb ! i) \<union> set C"
    using subseq_set_subset [of t "g @ C"] by (auto simp: in_set_conv_nth)
next
  assume "\<exists>i<length comb. set t \<subseteq> set (comb ! i) \<union> set C"
  then obtain i where i: "i < length comb" "set t \<subseteq> set (comb ! i) \<union> set C"
    by blast
  from t have sub: "subseq t (concat comb @ C)" and len: "2 \<le> length t" "int (length t) \<le> k"
    by (auto simp: set_get_terms)
  have "subseq t (comb ! i @ C)"
    using pd cd i(1) sub i(2) by (rule subseq_within_group)
  then have "t \<in> set (get_terms (comb ! i @ C) k [])"
    using len by (simp add: set_get_terms)
  then show "t \<in> set (concat (map (\<lambda>elem. get_terms (elem @ C) k []) comb))"
    using i(1) by auto
qed

lemma within_iff_not_cross:
  assumes pd: "pairwise_disjoint comb" and cd: "\<forall>g\<in>set comb. set g \<inter> set C = {}"
    and ne: "comb \<noteq> []" and sub: "set t \<subseteq> set (concat comb) \<union> set C"
  shows "(\<exists>i<length comb. set t \<subseteq> set (comb ! i) \<union> set C) \<longleftrightarrow> \<not> cross_group comb t"
proof
  assume "\<exists>i<length comb. set t \<subseteq> set (comb ! i) \<union> set C"
  then obtain k where k: "k < length comb" "set t \<subseteq> set (comb ! k) \<union> set C" by blast
  show "\<not> cross_group comb t"
  proof
    assume "cross_group comb t"
    then obtain i j where ij: "i < length comb" "j < length comb" "i \<noteq> j"
      and ti: "set t \<inter> set (comb ! i) \<noteq> {}" and tj: "set t \<inter> set (comb ! j) \<noteq> {}"
      unfolding cross_group_def by blast
    from ti tj obtain x y where x: "x \<in> set t" "x \<in> set (comb ! i)"
      and y: "y \<in> set t" "y \<in> set (comb ! j)"
      by blast
    have "set (comb ! i) \<inter> set C = {}" "set (comb ! j) \<inter> set C = {}"
      using cd ij(1,2) by (simp_all add: nth_mem)
    then have "x \<notin> set C" "y \<notin> set C"
      using x y by blast+
    then have xk: "x \<in> set (comb ! k)" and yk: "y \<in> set (comb ! k)"
      using k x y by blast+
    have "k = i"
      using pairwise_disjointD [OF pd k(1) ij(1)] x(2) xk by blast
    moreover have "k = j"
      using pairwise_disjointD [OF pd k(1) ij(2)] y(2) yk by blast
    ultimately show False using ij(3) by simp
  qed
next
  assume nc: "\<not> cross_group comb t"
  show "\<exists>i<length comb. set t \<subseteq> set (comb ! i) \<union> set C"
  proof (cases "set t \<subseteq> set C")
    case True
    have "0 < length comb" using ne by simp
    moreover have "set t \<subseteq> set (comb ! 0) \<union> set C" using True by blast
    ultimately show ?thesis by blast
  next
    case False
    then obtain x where x: "x \<in> set t" "x \<notin> set C" by blast
    then have "x \<in> set (concat comb)"
      using sub by blast
    from in_concat_nth [OF this] obtain i where i: "i < length comb" "x \<in> set (comb ! i)"
      by blast
    have "set t \<subseteq> set (comb ! i) \<union> set C"
    proof
      fix y assume y: "y \<in> set t"
      show "y \<in> set (comb ! i) \<union> set C"
      proof (rule ccontr)
        assume n: "y \<notin> set (comb ! i) \<union> set C"
        then have "y \<in> set (concat comb)"
          using sub y by blast
        from in_concat_nth [OF this] obtain j where j: "j < length comb" "y \<in> set (comb ! j)"
          by blast
        with n have "i \<noteq> j" by blast
        moreover have "set t \<inter> set (comb ! i) \<noteq> {}" using x(1) i(2) by blast
        moreover have "set t \<inter> set (comb ! j) \<noteq> {}" using y j(2) by blast
        ultimately have "cross_group comb t"
          using i(1) j(1) unfolding cross_group_def by blast
        with nc show False ..
      qed
    qed
    with i(1) show ?thesis by blast
  qed
qed

text \<open>
  C7. For a non-empty combination of pairwise disjoint groups and a conditioning set
  disjoint from them, at any maximum order \<open>k\<close>: the excluded terms are the terms over
  all the groups and \<open>C\<close> minus the terms over one group and \<open>C\<close>; they are exactly the
  terms of size 2 to \<open>k\<close> over all the groups and \<open>C\<close> that have features of more than one
  group; and no term that lies within a single group and \<open>C\<close> (a term within \<open>C\<close> among
  them) is excluded.
\<close>

theorem excluded_terms_are_cross_group:
  assumes "pairwise_disjoint comb" and "list_all (\<lambda>g. set g \<inter> set C = {}) comb" and "comb \<noteq> []"
  shows "set (get_excluded_terms comb k C) =
           set (get_terms (concat comb @ C) k []) - (\<Union>g\<in>set comb. set (get_terms (g @ C) k []))
       \<and> set (get_excluded_terms comb k C) =
           {t. subseq t (concat comb @ C) \<and> 2 \<le> length t \<and> int (length t) \<le> k \<and> cross_group comb t}
       \<and> (\<forall>g\<in>set comb. \<forall>t. set t \<subseteq> set g \<union> set C \<longrightarrow> t \<notin> set (get_excluded_terms comb k C))"
proof (intro conjI)
  have cd: "\<forall>g\<in>set comb. set g \<inter> set C = {}"
    using assms(2) by (simp add: list_all_iff)
  show diff: "set (get_excluded_terms comb k C) =
      set (get_terms (concat comb @ C) k []) - (\<Union>g\<in>set comb. set (get_terms (g @ C) k []))"
    by (auto simp: get_excluded_terms_def)
  have ex: "t \<in> set (get_excluded_terms comb k C) \<longleftrightarrow>
      t \<in> set (get_terms (concat comb @ C) k []) \<and> cross_group comb t" for t
  proof (cases "t \<in> set (get_terms (concat comb @ C) k [])")
    case True
    then have "set t \<subseteq> set (concat comb) \<union> set C"
      using subseq_set_subset [of t "concat comb @ C"] by (auto simp: set_get_terms)
    then have "(\<exists>i<length comb. set t \<subseteq> set (comb ! i) \<union> set C) \<longleftrightarrow> \<not> cross_group comb t"
      using assms(1) cd assms(3) by (intro within_iff_not_cross) auto
    then show ?thesis
      using True allowed_iff_within [OF assms(1) cd True]
      by (auto simp: get_excluded_terms_def)
  next
    case False
    then show ?thesis by (simp add: get_excluded_terms_def)
  qed
  then show "set (get_excluded_terms comb k C) =
      {t. subseq t (concat comb @ C) \<and> 2 \<le> length t \<and> int (length t) \<le> k \<and> cross_group comb t}"
    by (auto simp: set_get_terms)
  show "\<forall>g\<in>set comb. \<forall>t. set t \<subseteq> set g \<union> set C \<longrightarrow> t \<notin> set (get_excluded_terms comb k C)"
  proof (intro ballI allI impI)
    fix g t assume g: "g \<in> set comb" and w: "set t \<subseteq> set g \<union> set C"
    then obtain i where i: "i < length comb" "g = comb ! i"
      by (auto simp: in_set_conv_nth)
    show "t \<notin> set (get_excluded_terms comb k C)"
    proof
      assume "t \<in> set (get_excluded_terms comb k C)"
      then have t: "t \<in> set (get_terms (concat comb @ C) k [])" and c: "cross_group comb t"
        using ex by auto
      have "set t \<subseteq> set (concat comb) \<union> set C"
        using w g by auto
      then have "(\<exists>i<length comb. set t \<subseteq> set (comb ! i) \<union> set C) \<longleftrightarrow> \<not> cross_group comb t"
        using assms(1) cd assms(3) by (intro within_iff_not_cross) auto
      with i w c show False by blast
    qed
  qed
qed

theorem excluded_terms_are_cross_group_witness:
  "pairwise_disjoint [[''a''], [''b'']]
   \<and> list_all (\<lambda>g. set g \<inter> set [''c''] = {}) [[''a''], [''b'']]
   \<and> [[''a''], [''b'']] \<noteq> []
   \<and> set (get_excluded_terms [[''a''], [''b'']] 2 [''c'']) = {[''a'', ''b'']}
   \<and> cross_group [[''a''], [''b'']] [''a'', ''b'']
   \<and> [''a'', ''c''] \<notin> set (get_excluded_terms [[''a''], [''b'']] 2 [''c''])"
proof -
  have pd: "pairwise_disjoint [[''a''], [''b'']]"
    by (simp add: pairwise_disjoint_def less_Suc_eq)
  have cd: "list_all (\<lambda>g. set g \<inter> set [''c''] = {}) [[''a''], [''b'']]"
    by simp
  have ne: "[[''a''], [''b'']] \<noteq> ([] :: feature list list)"
    by simp
  have ex: "get_excluded_terms [[''a''], [''b'']] 2 [''c''] = [[''a'', ''b'']]"
    by (simp add: get_excluded_terms_def get_terms_def upto.simps Let_def numeral_2_eq_2)
  have "[''a'', ''b''] \<in> set (get_excluded_terms [[''a''], [''b'']] 2 [''c''])"
    by (simp add: ex)
  then have "cross_group [[''a''], [''b'']] [''a'', ''b'']"
    using excluded_terms_are_cross_group [OF pd cd ne, of 2] by blast
  then show ?thesis
    using pd cd ne ex by simp
qed


section \<open>Methods and invariants\<close>

declare get_model.simps [simp del]




lemma keepsI: "(\<And>s. I s \<Longrightarrow> I (snd (m s))) \<Longrightarrow> keeps I m"
  by (simp add: keeps_def)

lemma keepsD: "keeps I m \<Longrightarrow> I s \<Longrightarrow> I (snd (m s))"
  by (simp add: keeps_def)

lemma keeps_bind:
  assumes "keeps I m" and "\<And>x. keeps I (f x)"
  shows "keeps I (bind_e m f)"
proof (rule keepsI)
  fix s assume "I s"
  then have 1: "I (snd (m s))" using assms(1) by (rule keepsD [rotated])
  show "I (snd (bind_e m f s))"
  proof (cases "m s")
    case (Pair r s1)
    with 1 have "I s1" by simp
    then show ?thesis
      using Pair keepsD [OF assms(2)] by (cases r) (simp_all add: bind_e_def)
  qed
qed

lemma keeps_reading: "keeps I (reading f)"
  by (simp add: keeps_def reading_def)

lemma keeps_return: "keeps I (return_e x)"
  by (simp add: keeps_def return_e_def)

lemma keeps_if: "keeps I a \<Longrightarrow> keeps I b \<Longrightarrow> keeps I (if c then a else b)"
  by simp

lemma keeps_case_prod: "(\<And>a b. keeps I (f a b)) \<Longrightarrow> keeps I (case_prod f p)"
  by (cases p) simp

lemma keeps_let: "keeps I (f x) \<Longrightarrow> keeps I (Let x f)"
  by simp


lemma get_model_Nil:
  "get_model L comb order' [] s =
     (case models s (order', sort_comb comb False, []) of
        Some model \<Rightarrow> (Inr model, s)
      | None \<Rightarrow>
          fit_and_store L (order', sort_comb comb False, [])
            (if length (sort_comb comb False) > 1
             then Exclude (Some (get_excluded_terms comb order' []))
             else Exclude None)
            (concat comb) (y_train s) s)"
  by (subst get_model.simps) (simp add: Let_def split: option.splits)

lemma get_model_hit:
  "models s (order', sort_comb comb False, sort C) = Some model \<Longrightarrow>
   get_model L comb order' C s = (Inr model, s)"
  by (subst get_model.simps) (simp add: Let_def)

lemmas keeps_rules =
  keeps_bind keeps_reading keeps_return keeps_if keeps_case_prod keeps_let

text \<open>
  An invariant that every fit and every store in the model cache keeps is kept by the
  model cache, by a decomposition and, if no write to the decomposition cache breaks it,
  by every sequence of queries.
\<close>

lemma keeps_fit_and_store_general:
  assumes fit: "\<And>key args X y. keeps I (call_fit L key args X y)"
    and store: "\<And>s key m. I s \<Longrightarrow> I (s\<lparr>models := (models s)(key \<mapsto> m)\<rparr>)"
  shows "keeps I (fit_and_store L key args cols y)"
  unfolding fit_and_store_def
proof (intro keeps_bind keeps_reading fit)
  fix X m
  show "keeps I (\<lambda>s. (Inr m, s\<lparr>models := (models s)(key \<mapsto> m)\<rparr>))"
    by (rule keepsI) (simp add: store)
qed

lemma keeps_get_model_general:
  assumes fit: "\<And>key args X y. keeps I (call_fit L key args X y)"
    and store: "\<And>s key m. I s \<Longrightarrow> I (s\<lparr>models := (models s)(key \<mapsto> m)\<rparr>)"
  shows "keeps I (get_model L comb order' C)"
proof (rule keepsI)
  fix s :: "'a engine" assume s: "I s"
  note fs = keeps_fit_and_store_general [of I L, OF fit store]
  have nil: "I (snd (get_model L comb' order' [] s))" for comb'
    using s keepsD [OF fs s] by (simp add: get_model_Nil split: option.splits)
  let ?key = "(order', sort_comb comb False, sort C)"
  show "I (snd (get_model L comb order' C s))"
  proof (cases "models s ?key")
    case (Some m)
    then show ?thesis using s by (simp add: get_model_hit)
  next
    case None
    show ?thesis
    proof (cases "0 < length (sort C)")
      case False
      then show ?thesis
        using None s keepsD [OF fs s]
        by (subst get_model.simps) (simp add: Let_def)
    next
      case True
      obtain r s1 where rec: "get_model L [sort C] order' [] s = (r, s1)"
        by (cases "get_model L [sort C] order' [] s")
      have s1: "I s1"
        using nil [of "[sort C]"] rec by simp
      show ?thesis
        using None True rec s1 keepsD [OF fs s1]
        by (subst get_model.simps)
          (simp add: Let_def reading_def split: sum.splits prod.splits)
    qed
  qed
qed

lemma keeps_compute_general:
  assumes fit: "\<And>key args X y. keeps I (call_fit L key args X y)"
    and store: "\<And>s key m. I s \<Longrightarrow> I (s\<lparr>models := (models s)(key \<mapsto> m)\<rparr>)"
  shows "keeps I (compute L groups order' C)"
  unfolding compute_def score_on_test_def baseline_def orthogonalize_def
  by (intro keeps_rules keeps_get_model_general [of I L, OF fit store] fit)

lemma get_cases:
  "get L groups C s =
     (case assert_comb_valid (fs s) groups [] of
        Inl e \<Rightarrow> (Inl e, s)
      | Inr comb \<Rightarrow>
          (case decomps s (sort_comb comb False, sort C) of
             Some res \<Rightarrow> (Inr (adjust_order comb res), s)
           | None \<Rightarrow>
               (case compute L (map Tup (sort_comb comb False)) 2 C s of
                  (Inl e, s') \<Rightarrow> (Inl e, s')
                | (Inr res, s') \<Rightarrow>
                    (Inr res, s'\<lparr>decomps := (decomps s')((sort_comb comb False, sort C) \<mapsto> res)\<rparr>))))"
  by (simp add: get_def bind_e_def reading_def Let_def split: sum.splits option.splits prod.splits)

lemma keeps_get_general:
  assumes fit: "\<And>key args X y. keeps I (call_fit L key args X y)"
    and store: "\<And>s key m. I s \<Longrightarrow> I (s\<lparr>models := (models s)(key \<mapsto> m)\<rparr>)"
    and cache: "\<And>s d. I s \<Longrightarrow> I (s\<lparr>decomps := d\<rparr>)"
  shows "keeps I (get L groups C)"
proof (rule keepsI)
  fix s :: "'a engine" assume s: "I s"
  show "I (snd (get L groups C s))"
  proof (cases "assert_comb_valid (fs s) groups []")
    case (Inl e)
    then show ?thesis using s by (simp add: get_cases)
  next
    case (Inr comb)
    show ?thesis
    proof (cases "decomps s (sort_comb comb False, sort C)")
      case (Some res)
      then show ?thesis using s Inr by (simp add: get_cases)
    next
      case None
      obtain r s1 where c: "compute L (map Tup (sort_comb comb False)) 2 C s = (r, s1)"
        by (cases "compute L (map Tup (sort_comb comb False)) 2 C s")
      have "I s1"
        using keepsD [OF keeps_compute_general [of I L, OF fit store] s,
            of "map Tup (sort_comb comb False)" 2 C] c
        by simp
      then show ?thesis
        using Inr None c by (cases r) (simp_all add: get_cases cache)
    qed
  qed
qed

lemma run_general:
  assumes fit: "\<And>key args X y. keeps I (call_fit L key args X y)"
    and store: "\<And>s key m. I s \<Longrightarrow> I (s\<lparr>models := (models s)(key \<mapsto> m)\<rparr>)"
    and cache: "\<And>s d. I s \<Longrightarrow> I (s\<lparr>decomps := d\<rparr>)"
    and s: "I s"
  shows "I (run L qs s)"
  using s
proof (induction qs arbitrary: s)
  case Nil
  then show ?case by simp
next
  case (Cons q qs)
  have "I (snd (answer L q s))"
  proof (cases q)
    case (Get groups C)
    then show ?thesis
      using keepsD [OF keeps_get_general [of I L, OF fit store cache] Cons.prems] by simp
  next
    case (Compute groups order' C)
    then show ?thesis
      using keepsD [OF keeps_compute_general [of I L, OF fit store] Cons.prems] by simp
  qed
  then show ?case using Cons.IH by simp
qed

subsection \<open>What the model cache and a decomposition write\<close>

lemma model_cache_only_refl: "model_cache_only s s"
proof -
  have "s = s\<lparr>models := models s, fits := fits s\<rparr>" by simp
  then show ?thesis unfolding model_cache_only_def by blast
qed

lemma model_cache_only_fields:
  assumes "model_cache_only s0 s"
  shows "fs s = fs s0" "test_size s = test_size s0" "X_train s = X_train s0"
    "X_test s = X_test s0" "y_train s = y_train s0" "y_test s = y_test s0"
    "verbose s = verbose s0" "decomps s = decomps s0"
  using assms by (auto simp: model_cache_only_def)

lemma keeps_call_fit_footprint: "keeps (model_cache_only s0) (call_fit L key args X y)"
proof (rule keepsI)
  fix s :: "'a engine" assume "model_cache_only s0 s"
  then obtain ms fl where s: "s = s0\<lparr>models := ms, fits := fl\<rparr>"
    unfolding model_cache_only_def by blast
  show "model_cache_only s0 (snd (call_fit L key args X y s))"
  proof (cases "fit L args X y")
    case None
    then have "snd (call_fit L key args X y s) = s0\<lparr>models := ms, fits := (key, False) # fl\<rparr>"
      by (simp add: call_fit_def s)
    then show ?thesis unfolding model_cache_only_def by blast
  next
    case (Some m)
    then have "snd (call_fit L key args X y s) = s0\<lparr>models := ms, fits := (key, True) # fl\<rparr>"
      by (simp add: call_fit_def s)
    then show ?thesis unfolding model_cache_only_def by blast
  qed
qed

lemma model_cache_only_store:
  assumes "model_cache_only s0 s"
  shows "model_cache_only s0 (s\<lparr>models := (models s)(key \<mapsto> m)\<rparr>)"
proof -
  from assms obtain ms fl where s: "s = s0\<lparr>models := ms, fits := fl\<rparr>"
    unfolding model_cache_only_def by blast
  have "s\<lparr>models := (models s)(key \<mapsto> m)\<rparr> = s0\<lparr>models := ms(key \<mapsto> m), fits := fl\<rparr>"
    by (simp add: s)
  then show ?thesis
    unfolding model_cache_only_def by blast
qed

lemma keeps_compute_footprint: "keeps (model_cache_only s0) (compute L groups order' C)"
  by (rule keeps_compute_general) (rule keeps_call_fit_footprint, rule model_cache_only_store)

lemma compute_footprint:
  "model_cache_only s (snd (compute L groups order' C s))"
  using keepsD [OF keeps_compute_footprint model_cache_only_refl] .

lemma compute_decomps: "decomps (snd (compute L groups order' C s)) = decomps s"
  using model_cache_only_fields(8) [OF compute_footprint] .

subsection \<open>The invariant of the model cache\<close>

lemma fitted_cached_mem:
  "fitted_cached ms lg \<Longrightarrow> (Some key, True) \<in> set lg \<Longrightarrow> ms key \<noteq> None"
  by (induction ms lg rule: fitted_cached.induct) auto

lemma fitted_cached_upd:
  "fitted_cached ms lg \<Longrightarrow> fitted_cached (ms(key \<mapsto> m)) lg"
  by (induction ms lg rule: fitted_cached.induct) auto

lemma cache_inv_aux_fit: "cache_inv s \<Longrightarrow> cache_inv (s\<lparr>fits := (None, ok) # fits s\<rparr>)"
  by (simp add: cache_inv_def)

lemma cache_inv_failed_fit:
  "cache_inv s \<Longrightarrow> models s key = None \<Longrightarrow>
   cache_inv (s\<lparr>fits := (Some key, False) # fits s\<rparr>)"
  using fitted_cached_mem [of "models s" "fits s" key] by (auto simp: cache_inv_def)

lemma cache_inv_stored_fit:
  "cache_inv s \<Longrightarrow> models s key = None \<Longrightarrow>
   cache_inv (s\<lparr>fits := (Some key, True) # fits s, models := (models s)(key \<mapsto> m)\<rparr>)"
  using fitted_cached_mem [of "models s" "fits s" key]
  by (auto simp: cache_inv_def fitted_cached_upd)

lemma cache_inv_footprint_decomps: "cache_inv (s\<lparr>decomps := d\<rparr>) = cache_inv s"
  by (simp add: cache_inv_def)

lemma fit_and_store_cache_inv:
  assumes "cache_inv s" and "models s key = None"
  shows "cache_inv (snd (fit_and_store L key args cols y s))"
proof (cases "loc_cols (X_train s) cols")
  case (Inl e)
  then show ?thesis using assms by (simp add: fit_and_store_def bind_e_def reading_def)
next
  case (Inr X)
  show ?thesis
  proof (cases "fit L args X y")
    case None
    then show ?thesis
      using Inr cache_inv_failed_fit [OF assms]
      by (simp add: fit_and_store_def bind_e_def reading_def call_fit_def)
  next
    case (Some m)
    then show ?thesis
      using Inr cache_inv_stored_fit [OF assms, of m]
      by (simp add: fit_and_store_def bind_e_def reading_def call_fit_def)
  qed
qed

lemma fit_and_store_models:
  "k \<noteq> key \<Longrightarrow> models (snd (fit_and_store L key args cols y s)) k = models s k"
  by (simp add: fit_and_store_def bind_e_def reading_def call_fit_def
      split: sum.splits option.splits)

lemma get_model_Nil_cache_inv:
  assumes "cache_inv s"
  shows "cache_inv (snd (get_model L comb order' [] s))"
  using assms fit_and_store_cache_inv [OF assms]
  by (simp add: get_model_Nil split: option.splits)

lemma get_model_Nil_models:
  "k \<noteq> (order', sort_comb comb False, []) \<Longrightarrow>
   models (snd (get_model L comb order' [] s)) k = models s k"
  by (simp add: get_model_Nil fit_and_store_models split: option.splits)

lemma keeps_get_model_cache_inv: "keeps cache_inv (get_model L comb order' C)"
proof (rule keepsI)
  fix s :: "'a engine" assume s: "cache_inv s"
  let ?key = "(order', sort_comb comb False, sort C)"
  show "cache_inv (snd (get_model L comb order' C s))"
  proof (cases "models s ?key")
    case (Some m)
    then show ?thesis using s by (simp add: get_model_hit)
  next
    case None
    show ?thesis
    proof (cases "0 < length (sort C)")
      case False
      then show ?thesis
        using None s fit_and_store_cache_inv [OF s None]
        by (subst get_model.simps) (simp add: Let_def)
    next
      case True
      obtain r s1 where rec: "get_model L [sort C] order' [] s = (r, s1)"
        by (cases "get_model L [sort C] order' [] s")
      have s1: "cache_inv s1"
        using get_model_Nil_cache_inv [OF s, of L "[sort C]" order'] rec by simp
      have "sort C \<noteq> []"
        using True by (cases "sort C") simp_all
      then have "?key \<noteq> (order', sort_comb [sort C] False, [])"
        by simp
      then have "models s1 ?key = models s ?key"
        using get_model_Nil_models [of ?key order' "[sort C]" L s] rec by simp
      with None have n1: "models s1 ?key = None" by simp
      show ?thesis
        using None True rec s1 fit_and_store_cache_inv [OF s1 n1]
        by (subst get_model.simps)
          (simp add: Let_def reading_def split: sum.splits prod.splits)
    qed
  qed
qed

lemma keeps_call_fit_aux_cache_inv: "keeps cache_inv (call_fit L None args X y)"
  by (rule keepsI) (simp add: call_fit_def cache_inv_aux_fit split: option.splits)

lemma keeps_compute_cache_inv: "keeps cache_inv (compute L groups order' C)"
  unfolding compute_def score_on_test_def baseline_def orthogonalize_def
  by (intro keeps_rules keeps_get_model_cache_inv keeps_call_fit_aux_cache_inv)

lemma keeps_get_cache_inv: "keeps cache_inv (get L groups C)"
proof (rule keepsI)
  fix s :: "'a engine" assume s: "cache_inv s"
  show "cache_inv (snd (get L groups C s))"
  proof (cases "assert_comb_valid (fs s) groups []")
    case (Inl e)
    then show ?thesis using s by (simp add: get_cases)
  next
    case (Inr comb)
    show ?thesis
    proof (cases "decomps s (sort_comb comb False, sort C)")
      case (Some res)
      then show ?thesis using s Inr by (simp add: get_cases)
    next
      case None
      obtain r s1 where c: "compute L (map Tup (sort_comb comb False)) 2 C s = (r, s1)"
        by (cases "compute L (map Tup (sort_comb comb False)) 2 C s")
      have "cache_inv s1"
        using keepsD [OF keeps_compute_cache_inv s, of L "map Tup (sort_comb comb False)" 2 C] c
        by simp
      then show ?thesis
        using Inr None c by (cases r) (simp_all add: get_cases cache_inv_footprint_decomps)
    qed
  qed
qed

lemma keeps_answer_cache_inv: "keeps cache_inv (answer L q)"
  by (cases q) (simp_all add: keeps_get_cache_inv keeps_compute_cache_inv)

lemma run_cache_inv: "cache_inv s \<Longrightarrow> cache_inv (run L qs s)"
  by (induction qs arbitrary: s) (simp_all add: keepsD [OF keeps_answer_cache_inv])

lemma cache_inv_init: "cache_inv (init fl ts split v)"
  by (cases split) (simp add: init_def cache_inv_def)

lemma memoized_count: "memoized lg \<Longrightarrow> count_list lg (Some key, True) \<le> 1"
proof (induction lg rule: memoized.induct)
  case 1
  then show ?case by simp
next
  case (2 ok older)
  then show ?case by simp
next
  case (3 k ok older)
  then show ?case by (auto simp: count_list_0_iff)
qed

text \<open>With a learner whose fit never raises, every call in the log has returned.\<close>

lemma keeps_call_fit_returned:
  assumes "\<And>args X y. fit L args X y \<noteq> None"
  shows "keeps (\<lambda>s. list_all snd (fits s)) (call_fit L key args X y)"
  using assms [of args X y] by (intro keepsI) (auto simp: call_fit_def)

lemma run_all_returned:
  assumes "\<And>args X y. fit L args X y \<noteq> None"
  shows "list_all snd (fits (run L qs (init fl ts split v)))"
proof (rule run_general [where I = "\<lambda>s. list_all snd (fits s)"])
  show "keeps (\<lambda>s. list_all snd (fits s)) (call_fit L key args X y)" for key args X y
    using assms by (rule keeps_call_fit_returned)
  show "list_all snd (fits (init fl ts split v))"
    by (cases split) (simp add: init_def)
qed simp_all

lemma count_calls_returned:
  "list_all snd lg \<Longrightarrow> count_list (map fst lg) k = count_list lg (k, True)"
  by (induction lg) auto

subsection \<open>The decomposition cache\<close>

lemma get_decomps_persist:
  assumes "decomps s k = Some res"
  shows "decomps (snd (get L groups C s)) k = Some res"
proof (cases "assert_comb_valid (fs s) groups []")
  case (Inl e)
  then show ?thesis using assms by (simp add: get_cases)
next
  case (Inr comb)
  show ?thesis
  proof (cases "decomps s (sort_comb comb False, sort C)")
    case (Some r)
    then show ?thesis using assms Inr by (simp add: get_cases)
  next
    case None
    with assms have ne: "k \<noteq> (sort_comb comb False, sort C)" by auto
    obtain r s1 where c: "compute L (map Tup (sort_comb comb False)) 2 C s = (r, s1)"
      by (cases "compute L (map Tup (sort_comb comb False)) 2 C s")
    have "decomps s1 = decomps s"
      using compute_decomps [of L "map Tup (sort_comb comb False)" 2 C s] c by simp
    then show ?thesis
      using Inr None c ne assms by (cases r) (simp_all add: get_cases)
  qed
qed

lemma answer_decomps_persist:
  "decomps s k = Some res \<Longrightarrow> decomps (snd (answer L q s)) k = Some res"
  by (cases q) (simp_all add: get_decomps_persist compute_decomps)

lemma run_decomps_persist:
  "decomps s k = Some res \<Longrightarrow> decomps (run L qs s) k = Some res"
  by (induction qs arbitrary: s) (simp_all add: answer_decomps_persist)

lemma get_hit:
  assumes "assert_comb_valid (fs s) groups [] = Inr comb"
    and "decomps s (sort_comb comb False, sort C) = Some res"
  shows "get L groups C s = (Inr (adjust_order comb res), s)"
  using assms by (simp add: get_cases)

lemma get_miss:
  assumes "assert_comb_valid (fs s) groups [] = Inr comb"
    and "decomps s (sort_comb comb False, sort C) = None"
    and "get L groups C s = (Inr r, s')"
  shows "\<exists>s1. compute L (map Tup (sort_comb comb False)) 2 C s = (Inr r, s1) \<and>
              s' = s1\<lparr>decomps := (decomps s)((sort_comb comb False, sort C) \<mapsto> r)\<rparr>"
proof -
  obtain x s1 where c: "compute L (map Tup (sort_comb comb False)) 2 C s = (x, s1)"
    by (cases "compute L (map Tup (sort_comb comb False)) 2 C s")
  have d: "decomps s1 = decomps s"
    using compute_decomps [of L "map Tup (sort_comb comb False)" 2 C s] c by simp
  show ?thesis
    using assms c d by (cases x) (auto simp: get_cases)
qed

lemma get_twice:
  assumes "get L groups C s = (Inr res, s')"
  shows "\<exists>res'. get L groups C s' = (Inr res', s')"
proof (cases "assert_comb_valid (fs s) groups []")
  case (Inl e)
  then show ?thesis using assms by (simp add: get_cases)
next
  case (Inr comb)
  show ?thesis
  proof (cases "decomps s (sort_comb comb False, sort C)")
    case (Some r)
    then have "s' = s" using assms Inr by (simp add: get_cases)
    then show ?thesis using assms by blast
  next
    case None
    from get_miss [OF Inr None assms] obtain s1 where
      c: "compute L (map Tup (sort_comb comb False)) 2 C s = (Inr res, s1)" and
      s': "s' = s1\<lparr>decomps := (decomps s)((sort_comb comb False, sort C) \<mapsto> res)\<rparr>"
      by blast
    have "fs s1 = fs s"
      using model_cache_only_fields(1) [OF compute_footprint, of L "map Tup (sort_comb comb False)" 2 C s] c
      by simp
    then have "assert_comb_valid (fs s') groups [] = Inr comb"
      using Inr s' by simp
    moreover have "decomps s' (sort_comb comb False, sort C) = Some res"
      using s' by simp
    ultimately have "get L groups C s' = (Inr (adjust_order comb res), s')"
      by (rule get_hit)
    then show ?thesis by blast
  qed
qed

subsection \<open>The result of a decomposition\<close>








lemma collab_series_explv:
  "additive_collab_explv (collab_series cov var_y_res var_f1 var_f2 var_GAM var_total var_fC var_y) =
     fadd (fmul (fsub (fadd var_f1 var_f2) var_GAM) (Fin (- 1))) (fmul (Fin 2) (fdiv cov var_y_res))"
  by (simp add: collab_series_def Let_def)

subsection \<open>The engine on the example\<close>

lemmas eval_defs = get_def compute_def baseline_def bind_e_def bind_r_def reading_def return_e_def
  assert_comb_valid_def sort_comb_def adjust_order_def score_on_test_def orthogonalize_def
  fit_and_store_def get_model.simps
  call_fit_def call_predict_def call_predict_components_def collab_series_def
  series_sub_def series_add_def np_var_def np_cov01_def r2_score_def mean_def
  get_excluded_terms_def get_terms_def fsub_def signed_inf_def
  sum_learner_def example_engine_def init_def Let_def upto.simps numeral_2_eq_2

lemma pair_fst_snd: "fst p = a \<Longrightarrow> p = (a, snd p)"
  by (cases p) simp

lemma example_compute_conditioned:
  "fst (compute sum_learner [Lst [''a''], Lst [''b'']] 2 [''c''] example_engine) =
     Inr (collab_series (Fin 0) (Fin 1) (Fin 1) (Fin 0) (Fin (- (3 / 2))) (Fin (- (3 / 2)))
            (Fin (1 / 4)) (Fin (9 / 4)))"
  by (simp add: eval_defs)

lemma example_get:
  "get sum_learner [Lst [''a''], Lst [''b'']] [] example_engine = (Inr example_decomp, queried_engine)"
proof -
  have "fst (get sum_learner [Lst [''a''], Lst [''b'']] [] example_engine) = Inr example_decomp"
    by (simp add: eval_defs example_decomp_def)
  then show ?thesis
    unfolding queried_engine_def by (rule pair_fst_snd)
qed

lemma queried_engine_model:
  "models queried_engine (2, sort_comb [[''a'']] False, sort []) = Some ([''a''], [0, 3])"
  by (simp add: queried_engine_def eval_defs)

lemma queried_engine_fs: "fs queried_engine = [''a'', ''b'', ''c'']"
  by (simp add: queried_engine_def eval_defs)

lemma queried_engine_decomp:
  "decomps queried_engine (sort_comb [[''b''], [''a'']] False, sort []) = Some example_decomp"
  by (simp add: queried_engine_def eval_defs example_decomp_def)

lemma new_split_models: "models (snd (new_split tts t s)) = models s"
  by (simp add: new_split_def split: option.splits prod.splits)

section \<open>The claims\<close>

subsection \<open>Rescaling\<close>

text \<open>
  C1. Of the six quantities that \<^verbatim>\<open>compute\<close> returns, five are multiplied by the factor
  \<^verbatim>\<open>var_y_res / var_y\<close>; the covariance-adjusted additive term is not: the method
  rescales \<^verbatim>\<open>additive_collab\<close>, which it does not use again, and returns
  \<^verbatim>\<open>additive_collab_wo_cov\<close> as it was computed before the rescaling. For every input
  the field \<^verbatim>\<open>additive_collab_explv\<close> is the term without the factor. On the example,
  conditioned on \<open>c\<close>, the factor is \<open>4 / 9\<close>, the first group's variance \<open>1\<close> is returned
  as \<open>4 / 9\<close>, and the additive term \<open>- 5 / 2\<close> is returned as \<open>- 5 / 2\<close>, not as
  \<open>- 10 / 9\<close>.
\<close>

theorem compute_additive_term_not_rescaled:
  "additive_collab_explv (collab_series cov var_y_res var_f1 var_f2 var_GAM var_total var_fC var_y) =
     fadd (fmul (fsub (fadd var_f1 var_f2) var_GAM) (Fin (- 1))) (fmul (Fin 2) (fdiv cov var_y_res))
   \<and> fst (compute sum_learner [Lst [''a''], Lst [''b'']] 2 [''c''] example_engine) =
       Inr (collab_series (Fin 0) (Fin 1) (Fin 1) (Fin 0) (Fin (- (3 / 2))) (Fin (- (3 / 2)))
              (Fin (1 / 4)) (Fin (9 / 4)))
   \<and> collab_series (Fin 0) (Fin 1) (Fin 1) (Fin 0) (Fin (- (3 / 2))) (Fin (- (3 / 2)))
         (Fin (1 / 4)) (Fin (9 / 4)) =
       \<lparr>var_g1 = Fin (4 / 9), var_g2 = Fin 0, var_gC = Fin (1 / 9),
        additive_collab_explv = Fin (- (5 / 2)),
        additive_collab_cov = Fin 0, interactive_collab = Fin 0\<rparr>
   \<and> fdiv (Fin 1) (Fin (9 / 4)) = Fin (4 / 9)
   \<and> fmul (Fin (- (5 / 2))) (fdiv (Fin 1) (Fin (9 / 4))) = Fin (- (10 / 9))"
  using collab_series_explv example_compute_conditioned
  by (simp add: collab_series_def fsub_def Let_def)

subsection \<open>Validation of the conditioning set\<close>

text \<open>
  C2. \<^verbatim>\<open>get\<close> and \<^verbatim>\<open>compute\<close> call the validation without the conditioning set, so
  the assertion that it is disjoint from the two groups is checked against the empty
  list and never fails. On the example, with the groups \<open>a\<close> and \<open>b\<close> and the
  conditioning set \<open>a\<close>, the validation would raise if it were given the conditioning
  set, but \<^verbatim>\<open>get\<close> returns a decomposition, after seven fits of the learner.
\<close>

theorem get_ignores_conditioning_overlap:
  "assert_comb_valid (fs example_engine) [Lst [''a''], Lst [''b'']] [''a''] =
     Inl (AssertionError ConditioningDisjoint)
   \<and> fst (get sum_learner [Lst [''a''], Lst [''b'']] [''a''] example_engine) =
       Inr \<lparr>var_g1 = Fin (- (4 / 3)), var_g2 = Fin (- (16 / 9)), var_gC = Fin (1 / 9),
            additive_collab_explv = Fin (- (9 / 2)), additive_collab_cov = Fin 0,
            interactive_collab = Fin 0\<rparr>
   \<and> fits (snd (get sum_learner [Lst [''a''], Lst [''b'']] [''a''] example_engine)) =
       [(None, True), (None, True), (Some (2, [[''b'']], [''a'']), True),
        (Some (2, [[''a'']], [''a'']), True), (Some (2, [[''a''], [''b'']], [''a'']), True),
        (Some (2, [[''a'', ''b'']], [''a'']), True), (Some (2, [[''a'']], []), True)]"
  by (simp add: eval_defs)

subsection \<open>Resplitting\<close>

text \<open>
  C3. \<^verbatim>\<open>new_split\<close> clears the decomposition cache and leaves the model cache as it
  is, for every state. On the example, after a query and a resplit with another training
  target, the decomposition is gone, but the model cache still serves, without a fit,
  the predictor that was fitted to the old training target.
\<close>

theorem new_split_keeps_model_cache:
  "models (snd (new_split train_test_split t s)) = models s
   \<and> decomps (snd (new_split (\<lambda>t. Some ([(''a'', [5, 6]), (''b'', [1, 1]), (''c'', [0, 2])],
                 [(''a'', [1, 2]), (''b'', [2, 1]), (''c'', [0, 1])], [5, 7], [1, 4])) None
        (snd (get sum_learner [Lst [''a''], Lst [''b'']] [] example_engine))))
        ([[''a''], [''b'']], []) = None
   \<and> y_train (snd (new_split (\<lambda>t. Some ([(''a'', [5, 6]), (''b'', [1, 1]), (''c'', [0, 2])],
                 [(''a'', [1, 2]), (''b'', [2, 1]), (''c'', [0, 1])], [5, 7], [1, 4])) None
        (snd (get sum_learner [Lst [''a''], Lst [''b'']] [] example_engine)))) = [5, 7]
   \<and> fst (get_model sum_learner [[''a'']] 2 []
        (snd (new_split (\<lambda>t. Some ([(''a'', [5, 6]), (''b'', [1, 1]), (''c'', [0, 2])],
                 [(''a'', [1, 2]), (''b'', [2, 1]), (''c'', [0, 1])], [5, 7], [1, 4])) None
        (snd (get sum_learner [Lst [''a''], Lst [''b'']] [] example_engine))))) =
       Inr ([''a''], [0, 3])
   \<and> fits (snd (get_model sum_learner [[''a'']] 2 []
        (snd (new_split (\<lambda>t. Some ([(''a'', [5, 6]), (''b'', [1, 1]), (''c'', [0, 2])],
                 [(''a'', [1, 2]), (''b'', [2, 1]), (''c'', [0, 1])], [5, 7], [1, 4])) None
        (snd (get sum_learner [Lst [''a''], Lst [''b'']] [] example_engine)))))) =
       fits (snd (get sum_learner [Lst [''a''], Lst [''b'']] [] example_engine))"
  by (simp add: new_split_models) (simp add: eval_defs new_split_def)

subsection \<open>Symmetry of a query\<close>

text \<open>
  C4. On a miss \<^verbatim>\<open>get\<close> returns the decomposition in canonical labels, whatever the
  order of the groups in the query; only a hit is relabelled. On the example, asked
  first for \<open>(b, a)\<close> and then for \<open>(a, b)\<close>, the engine returns the same six values
  twice: \<^verbatim>\<open>var_g1\<close> and \<^verbatim>\<open>var_g2\<close> are not exchanged. Asked first for \<open>(a, b)\<close> and
  then for \<open>(b, a)\<close>, it exchanges them.
\<close>

theorem get_miss_not_relabelled:
  "fst (get sum_learner [Lst [''b''], Lst [''a'']] [] example_engine) =
     Inr \<lparr>var_g1 = Fin (1 / 9), var_g2 = Fin (- (11 / 9)), var_gC = Fin 0,
          additive_collab_explv = Fin (5 / 9), additive_collab_cov = Fin (4 / 9),
          interactive_collab = Fin 0\<rparr>
   \<and> fst (get sum_learner [Lst [''a''], Lst [''b'']] []
        (snd (get sum_learner [Lst [''b''], Lst [''a'']] [] example_engine))) =
     Inr \<lparr>var_g1 = Fin (1 / 9), var_g2 = Fin (- (11 / 9)), var_gC = Fin 0,
          additive_collab_explv = Fin (5 / 9), additive_collab_cov = Fin (4 / 9),
          interactive_collab = Fin 0\<rparr>
   \<and> fst (get sum_learner [Lst [''b''], Lst [''a'']] []
        (snd (get sum_learner [Lst [''a''], Lst [''b'']] [] example_engine))) =
     Inr \<lparr>var_g1 = Fin (- (11 / 9)), var_g2 = Fin (1 / 9), var_gC = Fin 0,
          additive_collab_explv = Fin (5 / 9), additive_collab_cov = Fin (4 / 9),
          interactive_collab = Fin 0\<rparr>"
  by (simp add: eval_defs)

subsection \<open>Memoization of the models\<close>

text \<open>
  C5. A request for a key that is in the model cache returns the stored predictor and
  leaves the state as it is, so it fits nothing. The invariant of the cache is kept by
  every sequence of queries; on an engine that started fresh, the log of fits is
  memoized (no fit is called for a key after a fit for it has returned), so at most one
  fit returns for a key, and with a learner whose fit never raises at most one fit is
  called for a key. After a \<^verbatim>\<open>get\<close> that has returned, the same \<^verbatim>\<open>get\<close> returns
  again and leaves the state, and with it the log of fits, as it is.
\<close>

theorem model_cache_memoizes:
  "(models s (order', sort_comb comb False, sort C) = Some model \<longrightarrow>
      get_model L comb order' C s = (Inr model, s))
   \<and> (cache_inv s \<longrightarrow> cache_inv (run L qs s))
   \<and> memoized (fits (run L qs (init fl ts split v)))
   \<and> count_list (fits (run L qs (init fl ts split v))) (Some key, True) \<le> 1
   \<and> ((\<forall>args X y. fit L args X y \<noteq> None) \<longrightarrow>
        count_list (map fst (fits (run L qs (init fl ts split v)))) (Some key) \<le> 1)
   \<and> (get L groups C' s = (Inr res, s') \<longrightarrow> (\<exists>res'. get L groups C' s' = (Inr res', s')))"
proof -
  have "cache_inv (run L qs (init fl ts split v))"
    using cache_inv_init by (rule run_cache_inv)
  then have m: "memoized (fits (run L qs (init fl ts split v)))"
    by (simp add: cache_inv_def)
  have once: "count_list (fits (run L qs (init fl ts split v))) (Some key, True) \<le> 1"
    using m by (rule memoized_count)
  have "count_list (map fst (fits (run L qs (init fl ts split v)))) (Some key) \<le> 1"
    if "\<forall>args X y. fit L args X y \<noteq> None"
  proof -
    have "list_all snd (fits (run L qs (init fl ts split v)))"
      using that by (intro run_all_returned) simp
    then show ?thesis
      using once by (simp add: count_calls_returned)
  qed
  then show ?thesis
    using m once by (simp add: get_model_hit run_cache_inv get_twice)
qed

theorem model_cache_memoizes_witness:
  "get sum_learner [Lst [''a''], Lst [''b'']] [] example_engine = (Inr example_decomp, queried_engine)
   \<and> (\<exists>res'. get sum_learner [Lst [''a''], Lst [''b'']] [] queried_engine = (Inr res', queried_engine))
   \<and> models queried_engine (2, sort_comb [[''a'']] False, sort []) = Some ([''a''], [0, 3])
   \<and> get_model sum_learner [[''a'']] 2 [] queried_engine = (Inr ([''a''], [0, 3]), queried_engine)
   \<and> cache_inv example_engine
   \<and> cache_inv (run sum_learner [Get [Lst [''a''], Lst [''b'']] [], Get [Lst [''b''], Lst [''a'']] [''c'']] example_engine)
   \<and> count_list (fits (run sum_learner [Get [Lst [''a''], Lst [''b'']] [], Get [Lst [''b''], Lst [''a'']] [''c'']] example_engine))
        (Some (2, [[''a'']], []), True) \<le> 1"
proof -
  have inv: "cache_inv example_engine"
    by (simp add: example_engine_def cache_inv_init)
  have init: "example_engine = init [''a'', ''b'', ''c''] (1 / 2)
       ([(''a'', [0, 1]), (''b'', [1, 1]), (''c'', [0, 2])],
        [(''a'', [1, 2]), (''b'', [2, 1]), (''c'', [0, 1])],
        [0, 3], [1, 4]) False"
    by (simp add: example_engine_def)
  note a = model_cache_memoizes [where s = queried_engine and order' = 2 and comb = "[[''a'']]"
      and C = "[]" and model = "([''a''], [0, 3])" and L = sum_learner]
  note b = model_cache_memoizes [where s = example_engine and L = sum_learner
      and qs = "[Get [Lst [''a''], Lst [''b'']] [], Get [Lst [''b''], Lst [''a'']] [''c'']]"
      and groups = "[Lst [''a''], Lst [''b'']]" and C' = "[]" and res = example_decomp
      and s' = queried_engine and key = "(2, [[''a'']], [])"
      and fl = "[''a'', ''b'', ''c'']" and ts = "1 / 2"
      and split = "([(''a'', [0, 1]), (''b'', [1, 1]), (''c'', [0, 2])],
        [(''a'', [1, 2]), (''b'', [2, 1]), (''c'', [0, 1])], [0, 3], [1, 4])" and v = False]
  show ?thesis
    using a b inv example_get queried_engine_model unfolding init [symmetric]
    by simp
qed

subsection \<open>A target without variance\<close>




subsection \<open>A feature name for a group\<close>

text \<open>
  C9. \<^verbatim>\<open>get\<close> on two feature names is \<^verbatim>\<open>get\<close> on the two one-element lists, for
  every conditioning set and every state: the same result or the same error, and the
  same state after it.
\<close>

theorem single_feature_shorthand:
  "get L [Str a, Str b] C s = get L [Lst [a], Lst [b]] C s"
proof -
  have "as_lists (fs s) [Str a, Str b] = as_lists (fs s) [Lst [a], Lst [b]]"
    by (simp add: bind_r_def)
  then have "assert_comb_valid (fs s) [Str a, Str b] [] = assert_comb_valid (fs s) [Lst [a], Lst [b]] []"
    by (simp only: assert_comb_valid_def list.size)
  then show ?thesis
    by (simp add: get_cases)
qed

subsection \<open>The entries of the decomposition cache\<close>

text \<open>
  C10. A hit returns the stored decomposition, relabelled for the order of the query,
  and leaves the state as it is. A miss that returns has stored, under the canonical
  key, what \<^verbatim>\<open>compute\<close> returned for the groups in canonical order, and it returns that.
  An entry of the cache stays what it is through every sequence of queries. The
  relabelling is the identity when the groups of the query are in canonical order and
  exchanges \<^verbatim>\<open>var_g1\<close> and \<^verbatim>\<open>var_g2\<close>, in a copy, when they are not.
\<close>

theorem decomposition_cache_canonical:
  "(assert_comb_valid (fs s) groups [] = Inr comb \<longrightarrow>
      decomps s (sort_comb comb False, sort C) = Some res \<longrightarrow>
        get L groups C s = (Inr (adjust_order comb res), s))
   \<and> (assert_comb_valid (fs s) groups [] = Inr comb \<longrightarrow>
      decomps s (sort_comb comb False, sort C) = None \<longrightarrow>
      get L groups C s = (Inr r, s') \<longrightarrow>
        (\<exists>s1. compute L (map Tup (sort_comb comb False)) 2 C s = (Inr r, s1) \<and>
              s' = s1\<lparr>decomps := (decomps s)((sort_comb comb False, sort C) \<mapsto> r)\<rparr>))
   \<and> (decomps s k = Some res \<longrightarrow> decomps (run L qs s) k = Some res)
   \<and> (sort_comb comb True = sort_comb comb False \<longrightarrow> adjust_order comb res = res)
   \<and> (sort_comb comb True \<noteq> sort_comb comb False \<longrightarrow>
        adjust_order comb res = res\<lparr>var_g1 := var_g2 res, var_g2 := var_g1 res\<rparr>)"
  using get_miss [of s groups comb C L r s']
  by (simp add: get_hit run_decomps_persist adjust_order_def)

theorem decomposition_cache_canonical_witness:
  "assert_comb_valid (fs queried_engine) [Lst [''b''], Lst [''a'']] [] = Inr [[''b''], [''a'']]
   \<and> decomps queried_engine (sort_comb [[''b''], [''a'']] False, sort []) = Some example_decomp
   \<and> get sum_learner [Lst [''b''], Lst [''a'']] [] queried_engine =
       (Inr (adjust_order [[''b''], [''a'']] example_decomp), queried_engine)
   \<and> sort_comb [[''b''], [''a'']] True \<noteq> sort_comb [[''b''], [''a'']] False
   \<and> adjust_order [[''b''], [''a'']] example_decomp =
       example_decomp\<lparr>var_g1 := var_g2 example_decomp, var_g2 := var_g1 example_decomp\<rparr>
   \<and> decomps (run sum_learner [Get [Lst [''b''], Lst [''a'']] [], Get [Lst [''a''], Lst [''b'']] [''c'']]
        queried_engine) (sort_comb [[''b''], [''a'']] False, sort []) = Some example_decomp
   \<and> assert_comb_valid (fs example_engine) [Lst [''a''], Lst [''b'']] [] = Inr [[''a''], [''b'']]
   \<and> decomps example_engine (sort_comb [[''a''], [''b'']] False, sort []) = None
   \<and> (\<exists>s1. compute sum_learner (map Tup (sort_comb [[''a''], [''b'']] False)) 2 [] example_engine =
             (Inr example_decomp, s1)
           \<and> queried_engine =
             s1\<lparr>decomps := (decomps example_engine)((sort_comb [[''a''], [''b'']] False, sort []) \<mapsto> example_decomp)\<rparr>)"
proof -
  have v1: "assert_comb_valid (fs queried_engine) [Lst [''b''], Lst [''a'']] [] = Inr [[''b''], [''a'']]"
    by (simp add: queried_engine_fs assert_comb_valid_def bind_r_def)
  have ne: "sort_comb [[''b''], [''a'']] True \<noteq> sort_comb [[''b''], [''a'']] False"
    by (simp add: sort_comb_def)
  have v0: "assert_comb_valid (fs example_engine) [Lst [''a''], Lst [''b'']] [] = Inr [[''a''], [''b'']]"
    by (simp add: example_engine_def init_def assert_comb_valid_def bind_r_def)
  have d0: "decomps example_engine (sort_comb [[''a''], [''b'']] False, sort []) = None"
    by (simp add: example_engine_def init_def)
  note hit = decomposition_cache_canonical [where s = queried_engine and L = sum_learner
      and groups = "[Lst [''b''], Lst [''a'']]" and comb = "[[''b''], [''a'']]" and C = "[]"
      and res = example_decomp
      and k = "(sort_comb [[''b''], [''a'']] False, sort [])"
      and qs = "[Get [Lst [''b''], Lst [''a'']] [], Get [Lst [''a''], Lst [''b'']] [''c'']]"]
  note miss = decomposition_cache_canonical [where s = example_engine and L = sum_learner
      and groups = "[Lst [''a''], Lst [''b'']]" and comb = "[[''a''], [''b'']]" and C = "[]"
      and r = example_decomp and s' = queried_engine]
  show ?thesis
    using hit miss v1 ne v0 d0 queried_engine_decomp example_get
    by (simp del: run.simps)
qed

end
